theory Spec2Isabelle
  imports Main "HOL-Library.Sublist"
begin

section \<open>JavaScript values used by the ingestion pipeline\<close>

text \<open>
  The source is TypeScript running on JavaScript values. An optional string
  (\<^verbatim>\<open>string | null | undefined\<close>) is a \<open>string option\<close>; \<open>null\<close> and
  \<open>undefined\<close> are both \<open>None\<close> (the source never tells them apart, except to
  turn \<open>null\<close> into \<open>undefined\<close>). A string is truthy when it is present and
  not empty.
\<close>

definition truthy :: "string option \<Rightarrow> bool" where
  "truthy v = (case v of None \<Rightarrow> False | Some s \<Rightarrow> s \<noteq> [])"

text \<open>\<^verbatim>\<open>v || d\<close> on an optional string \<open>v\<close> and a string \<open>d\<close>.\<close>

definition or_else :: "string option \<Rightarrow> string \<Rightarrow> string" where
  "or_else v d = (if truthy v then the v else d)"

text \<open>
  A JavaScript number as far as \<^verbatim>\<open>parseInt\<close> produces one: \<open>NaN\<close> or an integer.
  (The rounding of integers beyond \<open>2 ^ 53\<close> to a double is not modelled: the
  model keeps every digit where JavaScript rounds to the nearest double.)
\<close>

datatype number = NaN | Num int

text \<open>
  The white space \<^verbatim>\<open>parseInt\<close> skips, among the ASCII characters. (JavaScript
  also skips the white space beyond ASCII, such as U+00A0; the model does not.)
\<close>

definition isWhiteSpace :: "char \<Rightarrow> bool" where
  "isWhiteSpace c = (c \<in> set [CHR '' '', CHR 0x09, CHR 0x0A, CHR 0x0B, CHR 0x0C, CHR 0x0D])"

definition isDigit :: "char \<Rightarrow> bool" where
  "isDigit c = (48 \<le> (of_char c :: nat) \<and> (of_char c :: nat) \<le> 57)"

definition digitsValue :: "string \<Rightarrow> int" where
  "digitsValue ds = foldl (\<lambda>n c. 10 * n + (of_char c - 48)) 0 ds"

text \<open>
  \<^verbatim>\<open>parseInt(s, 10)\<close>: leading white space is skipped, one sign is read, then the
  longest run of decimal digits; with no digit the result is \<open>NaN\<close>.
\<close>

definition parseInt :: "string \<Rightarrow> number" where
  "parseInt s =
     (let s1 = dropWhile isWhiteSpace s;
          neg = (case s1 of c # _ \<Rightarrow> c = CHR ''-'' | [] \<Rightarrow> False);
          s2 = (case s1 of c # r \<Rightarrow> if c = CHR ''-'' \<or> c = CHR ''+'' then r else s1 | [] \<Rightarrow> s1);
          ds = takeWhile isDigit s2
      in if ds = [] then NaN
         else Num (if neg then - digitsValue ds else digitsValue ds))"

text \<open>
  A \<^verbatim>\<open>Date\<close>: \<^verbatim>\<open>new Date(x)\<close> keeps its argument, \<^verbatim>\<open>new Date()\<close> is the
  reading of the clock, named by the number of readings before it.
\<close>

datatype date = DateOf "string option" | Now nat

text \<open>What the source can throw.\<close>

datatype error = NotAuthenticated | NoChannels | TypeError

section \<open>Upstream payloads\<close>

record Thumbnail =
  url :: "string option"

record ThumbnailDetails =
  maxres :: "Thumbnail option"
  standard :: "Thumbnail option"
  high :: "Thumbnail option"
  medium :: "Thumbnail option"
  default_variant :: "Thumbnail option"

section \<open>Thumbnail Selector\<close>

text \<open>
  \<^verbatim>\<open>getBestThumbnail\<close> returns \<^verbatim>\<open>thumbnails.X.url!\<close> of the first variant that is
  present; the last line reads \<^verbatim>\<open>thumbnails.default!.url!\<close> with no test, which
  throws a TypeError when \<open>default\<close> is absent. The \<^verbatim>\<open>!\<close> on \<open>url\<close> checks
  nothing at run time, so the result is the optional URL as it is.
\<close>

definition getBestThumbnail :: "ThumbnailDetails \<Rightarrow> error + string option" where
  "getBestThumbnail thumbnails =
     (if maxres thumbnails \<noteq> None then Inr (url (the (maxres thumbnails)))
      else if standard thumbnails \<noteq> None then Inr (url (the (standard thumbnails)))
      else if high thumbnails \<noteq> None then Inr (url (the (high thumbnails)))
      else if medium thumbnails \<noteq> None then Inr (url (the (medium thumbnails)))
      else (case default_variant thumbnails of
              None \<Rightarrow> Inl TypeError
            | Some t \<Rightarrow> Inr (url t)))"

text \<open>
  The specification's reading: the variants in priority order, and the first
  one present.
\<close>

definition priorityOrder :: "ThumbnailDetails \<Rightarrow> Thumbnail option list" where
  "priorityOrder t = [maxres t, standard t, high t, medium t, default_variant t]"

definition highestPresent :: "ThumbnailDetails \<Rightarrow> Thumbnail option" where
  "highestPresent t = (case filter (\<lambda>v. v \<noteq> None) (priorityOrder t) of [] \<Rightarrow> None | v # _ \<Rightarrow> v)"

section \<open>The upstream catalog API\<close>

record VideoSnippet =
  title :: "string option"
  description :: "string option"
  publishedAt :: "string option"
  thumbnails :: "ThumbnailDetails option"
  channelTitle :: "string option"

record VideoStatistics =
  viewCount :: "string option"
  likeCount :: "string option"
  dislikeCount :: "string option"
  commentCount :: "string option"

text \<open>
  An item of \<^verbatim>\<open>videos.list\<close>. The source reads \<^verbatim>\<open>item.id!\<close> and passes it to
  the store's predicates, so the identifier is a string here; \<open>snippet\<close> and
  \<open>statistics\<close> are read through property accesses, which throw on
  \<open>undefined\<close>, so they are optional.
\<close>

record Schema_Video =
  id' :: string
  snippet :: "VideoSnippet option"
  statistics :: "VideoStatistics option"

record VideoListResponse =
  items :: "Schema_Video list option"

text \<open>The source's interface \<^verbatim>\<open>YouTubeVideo\<close>; \<^verbatim>\<open>id.videoId\<close> is the field \<open>videoId\<close>.\<close>

record YouTubeVideo =
  videoId :: string
  snippet :: "VideoSnippet option"
  statistics :: "VideoStatistics option"

record ResourceId =
  channelId :: "string option"
  videoId :: "string option"

record SearchResult =
  id' :: "ResourceId option"

record SearchListResponse =
  items :: "SearchResult list option"
  nextPageToken :: "string option"

record CommentSnippet =
  textDisplay :: "string option"
  likeCount :: "int option"
  publishedAt :: "string option"

record Comment =
  snippet :: "CommentSnippet option"

record CommentThreadSnippet =
  topLevelComment :: "Comment option"

record CommentThread =
  id' :: "string option"
  snippet :: "CommentThreadSnippet option"

record CommentThreadListResponse =
  items :: "CommentThread list option"
  nextPageToken :: "string option"

text \<open>The source's interface \<^verbatim>\<open>YouTubeComment\<close>.\<close>

record YouTubeComment =
  id' :: "string option"
  snippet :: "CommentSnippet option"

text \<open>A call of the client either rejects (the \<^verbatim>\<open>catch\<close> branch) or resolves.\<close>

datatype 'a response = Rejected | Resolved 'a

text \<open>
  The two ways the source calls \<^verbatim>\<open>youtube.search.list\<close>: by channel name
  (\<^verbatim>\<open>type: channel, q, maxResults: 1\<close>) and by channel identifier and page token
  (\<^verbatim>\<open>type: video, order: date, maxResults: 50\<close>).
\<close>

datatype search_params = ChannelQuery string | VideoQuery string "string option"

text \<open>The client: one response function per endpoint.\<close>

record youtube =
  search_list :: "search_params \<Rightarrow> SearchListResponse response"
  videos_list :: "string list \<Rightarrow> VideoListResponse response"
  commentThreads_list :: "string \<Rightarrow> string option \<Rightarrow> CommentThreadListResponse response"

text \<open>The requests a run sends, in order.\<close>

datatype api_call =
    SearchList search_params
  | VideosList "string list"
  | CommentThreadsList string "string option"

section \<open>Channel Resolver\<close>

text \<open>\<^verbatim>\<open>response.data.items?.[0]?.id?.channelId || null\<close>, and \<open>null\<close> on rejection.\<close>

definition getChannelId :: "youtube \<Rightarrow> string \<Rightarrow> string option" where
  "getChannelId yt channelName =
     (case search_list yt (ChannelQuery channelName) of
        Rejected \<Rightarrow> None
      | Resolved data \<Rightarrow>
          (case SearchListResponse.items data of
             None \<Rightarrow> None
           | Some [] \<Rightarrow> None
           | Some (item # _) \<Rightarrow>
               (case SearchResult.id' item of
                  None \<Rightarrow> None
                | Some rid \<Rightarrow>
                    if truthy (ResourceId.channelId rid) then ResourceId.channelId rid else None)))"

definition getChannelId_calls :: "string \<Rightarrow> api_call list" where
  "getChannelId_calls channelName = [SearchList (ChannelQuery channelName)]"

section \<open>Video Enumerator\<close>

text \<open>
  \<^verbatim>\<open>data.items?.map((item) => item.id?.videoId).filter(Boolean) || []\<close>: the
  identifiers that are present and not empty.
\<close>

definition pageVideoIds :: "SearchListResponse \<Rightarrow> string list" where
  "pageVideoIds data =
     (case SearchListResponse.items data of
        None \<Rightarrow> []
      | Some its \<Rightarrow>
          map the (filter truthy
            (map (\<lambda>item. case SearchResult.id' item of
                              None \<Rightarrow> None
                            | Some rid \<Rightarrow> ResourceId.videoId rid) its)))"

text \<open>
  The \<^verbatim>\<open>do ... while (nextPageToken)\<close> loop of \<^verbatim>\<open>fetchAllVideosForChannel\<close>, with
  the accumulated identifiers, the token of the next request and the requests
  sent so far. The loop need not end: the result \<open>None\<close> is a loop that runs
  forever.
\<close>

partial_function (option) fetchAllVideos_loop ::
  "youtube \<Rightarrow> string \<Rightarrow> string list \<Rightarrow> string option \<Rightarrow> api_call list
     \<Rightarrow> (string list \<times> api_call list) option" where
  "fetchAllVideos_loop yt chanId allVideoIds pageToken sent =
     (case search_list yt (VideoQuery chanId pageToken) of
        Rejected \<Rightarrow> Some (allVideoIds, sent @ [SearchList (VideoQuery chanId pageToken)])
      | Resolved data \<Rightarrow>
          if truthy (SearchListResponse.nextPageToken data)
          then fetchAllVideos_loop yt chanId (allVideoIds @ pageVideoIds data)
                 (SearchListResponse.nextPageToken data)
                 (sent @ [SearchList (VideoQuery chanId pageToken)])
          else Some (allVideoIds @ pageVideoIds data,
                 sent @ [SearchList (VideoQuery chanId pageToken)]))"

declare fetchAllVideos_loop.simps [code]

definition fetchAllVideosForChannel ::
  "youtube \<Rightarrow> string \<Rightarrow> (string list \<times> api_call list) option" where
  "fetchAllVideosForChannel yt chanId = fetchAllVideos_loop yt chanId [] None []"

section \<open>Video Detail Fetcher\<close>

definition fetchVideoDetails :: "youtube \<Rightarrow> string list \<Rightarrow> YouTubeVideo list" where
  "fetchVideoDetails yt videoIds =
     (case videos_list yt videoIds of
        Rejected \<Rightarrow> []
      | Resolved data \<Rightarrow>
          (case VideoListResponse.items data of
             None \<Rightarrow> []
           | Some its \<Rightarrow>
               map (\<lambda>item. \<lparr> YouTubeVideo.videoId = Schema_Video.id' item,
                              YouTubeVideo.snippet = Schema_Video.snippet item,
                              YouTubeVideo.statistics = Schema_Video.statistics item \<rparr>) its))"

definition fetchVideoDetails_calls :: "string list \<Rightarrow> api_call list" where
  "fetchVideoDetails_calls videoIds = [VideosList videoIds]"

section \<open>Comment Fetcher\<close>

text \<open>
  One item of the page: \<^verbatim>\<open>item.snippet!.topLevelComment!.snippet!\<close> throws a
  TypeError when \<open>snippet\<close> or \<open>topLevelComment\<close> is absent.
\<close>

definition toYouTubeComment :: "CommentThread \<Rightarrow> error + YouTubeComment" where
  "toYouTubeComment item =
     (case CommentThread.snippet item of
        None \<Rightarrow> Inl TypeError
      | Some ts \<Rightarrow>
          (case topLevelComment ts of
             None \<Rightarrow> Inl TypeError
           | Some c \<Rightarrow>
               Inr \<lparr> YouTubeComment.id' = CommentThread.id' item,
                     YouTubeComment.snippet = Comment.snippet c \<rparr>))"

fun mapComments :: "CommentThread list \<Rightarrow> error + YouTubeComment list" where
  "mapComments [] = Inr []"
| "mapComments (item # its) =
     (case toYouTubeComment item of
        Inl e \<Rightarrow> Inl e
      | Inr c \<Rightarrow> (case mapComments its of Inl e \<Rightarrow> Inl e | Inr cs \<Rightarrow> Inr (c # cs)))"

text \<open>\<^verbatim>\<open>data.items?.map(...) || []\<close>.\<close>

definition pageComments :: "CommentThreadListResponse \<Rightarrow> error + YouTubeComment list" where
  "pageComments data =
     (case CommentThreadListResponse.items data of
        None \<Rightarrow> Inr []
      | Some its \<Rightarrow> mapComments its)"

text \<open>
  The loop of \<^verbatim>\<open>fetchVideoComments\<close>. A rejected request and a TypeError of
  the page's \<^verbatim>\<open>map\<close> both land in the \<^verbatim>\<open>catch\<close>, which leaves the loop.
\<close>

partial_function (option) fetchVideoComments_loop ::
  "youtube \<Rightarrow> string \<Rightarrow> YouTubeComment list \<Rightarrow> string option \<Rightarrow> api_call list
     \<Rightarrow> (YouTubeComment list \<times> api_call list) option" where
  "fetchVideoComments_loop yt vidId allComments pageToken sent =
     (case commentThreads_list yt vidId pageToken of
        Rejected \<Rightarrow> Some (allComments, sent @ [CommentThreadsList vidId pageToken])
      | Resolved data \<Rightarrow>
          (case pageComments data of
             Inl e \<Rightarrow> Some (allComments, sent @ [CommentThreadsList vidId pageToken])
           | Inr comments \<Rightarrow>
               if length (allComments @ comments) \<ge> 100
               then Some (take 100 (allComments @ comments),
                      sent @ [CommentThreadsList vidId pageToken])
               else if truthy (CommentThreadListResponse.nextPageToken data)
               then fetchVideoComments_loop yt vidId (allComments @ comments)
                      (CommentThreadListResponse.nextPageToken data)
                      (sent @ [CommentThreadsList vidId pageToken])
               else Some (allComments @ comments,
                      sent @ [CommentThreadsList vidId pageToken])))"

declare fetchVideoComments_loop.simps [code]

definition fetchVideoComments ::
  "youtube \<Rightarrow> string \<Rightarrow> (YouTubeComment list \<times> api_call list) option" where
  "fetchVideoComments yt vidId = fetchVideoComments_loop yt vidId [] None []"

section \<open>The store\<close>

text \<open>
  The rows of the three tables. The schema module is not part of the sources;
  the columns are the fields the source reads and writes, with the timestamps
  the specification's data model gives to channels and videos. Row identifiers
  are generated by the store and are opaque to the pipeline.
\<close>

type_synonym row_id = nat

record YouTubeChannelType =
  id' :: row_id
  name :: string
  channelId :: "string option"
  userId :: string
  createdAt :: date
  updatedAt :: date

text \<open>The object \<^verbatim>\<open>newVideo\<close> of the source, and the stored row.\<close>

record NewVideo =
  videoId :: string
  title :: "string option"
  description :: "string option"
  publishedAt :: date
  thumbnailUrl :: "string option"
  channelId :: string
  channelTitle :: "string option"
  userId :: string
  viewCount :: number
  likeCount :: number
  dislikeCount :: number
  commentCount :: number

record Video =
  id' :: row_id
  videoId :: string
  title :: "string option"
  description :: "string option"
  publishedAt :: date
  thumbnailUrl :: "string option"
  channelId :: string
  channelTitle :: "string option"
  userId :: string
  viewCount :: number
  likeCount :: number
  dislikeCount :: number
  commentCount :: number
  createdAt :: date
  updatedAt :: date

text \<open>The object \<^verbatim>\<open>newComment\<close> of the source, and the stored row.\<close>

record NewComment =
  videoId :: row_id
  userId :: string
  commentText :: "string option"
  likeCount :: number
  dislikeCount :: number
  publishedAt :: date

record VideoComment =
  id' :: row_id
  videoId :: row_id
  userId :: string
  commentText :: "string option"
  likeCount :: number
  dislikeCount :: number
  publishedAt :: date

text \<open>
  The world a call runs in: the three tables (a table is the list of its rows,
  a select keeps their order, an insert appends), the next identifier the store
  generates, the number of clock readings so far, and the requests sent to the
  upstream API so far.
\<close>

record world =
  YouTubeChannels :: "YouTubeChannelType list"
  Videos :: "Video list"
  VideoComments :: "VideoComment list"
  nextId :: row_id
  clockReads :: nat
  requests :: "api_call list"

definition send :: "api_call list \<Rightarrow> world \<Rightarrow> world" where
  "send cs w = w\<lparr> requests := requests w @ cs \<rparr>"

text \<open>
  Modelled from the spec: the persistence layer (the query builder and the
  schema with its defaults) is missing from the sources. \<open>insert(row)\<close> gives
  the row with a generated identifier; the timestamps of a new video row are
  the clock at the insert.
\<close>

definition insertVideo :: "NewVideo \<Rightarrow> world \<Rightarrow> Video \<times> world" where
  "insertVideo nv w =
     (let row = \<lparr> Video.id' = nextId w,
                   Video.videoId = NewVideo.videoId nv,
                   Video.title = NewVideo.title nv,
                   Video.description = NewVideo.description nv,
                   Video.publishedAt = NewVideo.publishedAt nv,
                   Video.thumbnailUrl = NewVideo.thumbnailUrl nv,
                   Video.channelId = NewVideo.channelId nv,
                   Video.channelTitle = NewVideo.channelTitle nv,
                   Video.userId = NewVideo.userId nv,
                   Video.viewCount = NewVideo.viewCount nv,
                   Video.likeCount = NewVideo.likeCount nv,
                   Video.dislikeCount = NewVideo.dislikeCount nv,
                   Video.commentCount = NewVideo.commentCount nv,
                   Video.createdAt = Now (clockReads w),
                   Video.updatedAt = Now (clockReads w) \<rparr>
      in (row, w\<lparr> Videos := Videos w @ [row],
                    nextId := Suc (nextId w),
                    clockReads := Suc (clockReads w) \<rparr>))"

text \<open>Modelled from the spec: \<open>insert(row)\<close> on the comments table.\<close>

definition insertComment :: "NewComment \<Rightarrow> world \<Rightarrow> VideoComment \<times> world" where
  "insertComment nc w =
     (let row = \<lparr> VideoComment.id' = nextId w,
                   VideoComment.videoId = NewComment.videoId nc,
                   VideoComment.userId = NewComment.userId nc,
                   VideoComment.commentText = NewComment.commentText nc,
                   VideoComment.likeCount = NewComment.likeCount nc,
                   VideoComment.dislikeCount = NewComment.dislikeCount nc,
                   VideoComment.publishedAt = NewComment.publishedAt nc \<rparr>
      in (row, w\<lparr> VideoComments := VideoComments w @ [row],
                    nextId := Suc (nextId w) \<rparr>))"

section \<open>Ingestion Orchestrator\<close>

text \<open>
  The update of a channel row with the identifier found:
  \<^verbatim>\<open>set({ channelId, updatedAt: new Date() })\<close> where the row identifier and
  the owner are the given ones.
\<close>

definition updateChannelId :: "row_id \<Rightarrow> string \<Rightarrow> string \<Rightarrow> world \<Rightarrow> world" where
  "updateChannelId rid uid chanId w =
     w\<lparr> YouTubeChannels :=
          map (\<lambda>c. if YouTubeChannelType.id' c = rid \<and> YouTubeChannelType.userId c = uid
                   then c\<lparr> YouTubeChannelType.channelId := Some chanId,
                          YouTubeChannelType.updatedAt := Now (clockReads w) \<rparr>
                   else c) (YouTubeChannels w),
        clockReads := Suc (clockReads w) \<rparr>"

text \<open>
  The first part of the loop body over channels: the identifier the rest of the
  body works with, or \<open>None\<close> for \<^verbatim>\<open>continue\<close>.
\<close>

definition resolveChannel ::
  "youtube \<Rightarrow> string \<Rightarrow> YouTubeChannelType \<Rightarrow> world \<Rightarrow> string option \<times> world" where
  "resolveChannel yt uid channel w =
     (if \<not> truthy (YouTubeChannelType.channelId channel)
      then (case getChannelId yt (name channel) of
              None \<Rightarrow> (None, send (getChannelId_calls (name channel)) w)
            | Some chanId \<Rightarrow>
                (Some chanId,
                 updateChannelId (YouTubeChannelType.id' channel) uid chanId
                   (send (getChannelId_calls (name channel)) w)))
      else (YouTubeChannelType.channelId channel, w))"

text \<open>
  The object \<^verbatim>\<open>newVideo\<close>. Its properties are evaluated in order:
  \<^verbatim>\<open>video.snippet.title\<close> throws when the snippet is absent,
  \<^verbatim>\<open>getBestThumbnail(video.snippet.thumbnails!)\<close> when the thumbnails are, and
  \<^verbatim>\<open>video.statistics.viewCount\<close> when the statistics are.
\<close>

definition newVideoOf :: "string \<Rightarrow> string \<Rightarrow> YouTubeVideo \<Rightarrow> error + NewVideo" where
  "newVideoOf uid chanId video =
     (case YouTubeVideo.snippet video of
        None \<Rightarrow> Inl TypeError
      | Some sn \<Rightarrow>
          (case thumbnails sn of
             None \<Rightarrow> Inl TypeError
           | Some th \<Rightarrow>
               (case getBestThumbnail th of
                  Inl e \<Rightarrow> Inl e
                | Inr thumb \<Rightarrow>
                    (case YouTubeVideo.statistics video of
                       None \<Rightarrow> Inl TypeError
                     | Some st \<Rightarrow>
                         Inr \<lparr> NewVideo.videoId = YouTubeVideo.videoId video,
                               NewVideo.title = VideoSnippet.title sn,
                               NewVideo.description = VideoSnippet.description sn,
                               NewVideo.publishedAt = DateOf (VideoSnippet.publishedAt sn),
                               NewVideo.thumbnailUrl = thumb,
                               NewVideo.channelId = chanId,
                               NewVideo.channelTitle = VideoSnippet.channelTitle sn,
                               NewVideo.userId = uid,
                               NewVideo.viewCount =
                                 parseInt (or_else (VideoStatistics.viewCount st) ''0''),
                               NewVideo.likeCount =
                                 parseInt (or_else (VideoStatistics.likeCount st) ''0''),
                               NewVideo.dislikeCount =
                                 parseInt (or_else (VideoStatistics.dislikeCount st) ''0''),
                               NewVideo.commentCount =
                                 parseInt (or_else (VideoStatistics.commentCount st) ''0'') \<rparr>))))"

text \<open>
  The existence check and the insert: the identifier of the stored row the
  comments refer to, and the new videos so far.
\<close>

definition existingVideo :: "string \<Rightarrow> string \<Rightarrow> world \<Rightarrow> Video list" where
  "existingVideo vidId uid w =
     take 1 (filter (\<lambda>r. Video.videoId r = vidId \<and> Video.userId r = uid) (Videos w))"

definition upsertVideo ::
  "string \<Rightarrow> string \<Rightarrow> YouTubeVideo \<Rightarrow> Video list \<Rightarrow> world
     \<Rightarrow> (error + row_id \<times> Video list) \<times> world" where
  "upsertVideo uid chanId video newVideos w =
     (case existingVideo (YouTubeVideo.videoId video) uid w of
        [] \<Rightarrow>
          (case newVideoOf uid chanId video of
             Inl e \<Rightarrow> (Inl e, w)
           | Inr nv \<Rightarrow>
               (Inr (Video.id' (fst (insertVideo nv w)), newVideos @ [fst (insertVideo nv w)]),
                snd (insertVideo nv w)))
      | existing # _ \<Rightarrow> (Inr (Video.id' existing, newVideos), w))"

text \<open>
  Decimal digits of a number, for the template string of a comment's like
  count. (All digits are printed; JavaScript prints a number from \<open>10 ^ 21\<close> on
  in exponent form, which is not modelled.)
\<close>

fun natToString :: "nat \<Rightarrow> string" where
  "natToString n =
     (if n < 10 then [char_of (48 + n)]
      else natToString (n div 10) @ [char_of (48 + n mod 10)])"

definition intToString :: "int \<Rightarrow> string" where
  "intToString i = (if i < 0 then CHR ''-'' # natToString (nat (- i)) else natToString (nat i))"

text \<open>
  The object \<^verbatim>\<open>newComment\<close>: \<^verbatim>\<open>comment.snippet.textDisplay\<close> throws when the
  snippet is absent; the like count is
  \<^verbatim>\<open>parseInt(`${comment.snippet.likeCount || "0"}`, 10)\<close>.
\<close>

definition newCommentOf :: "row_id \<Rightarrow> string \<Rightarrow> YouTubeComment \<Rightarrow> error + NewComment" where
  "newCommentOf rowId uid comment =
     (case YouTubeComment.snippet comment of
        None \<Rightarrow> Inl TypeError
      | Some sn \<Rightarrow>
          Inr \<lparr> NewComment.videoId = rowId,
                NewComment.userId = uid,
                NewComment.commentText = textDisplay sn,
                NewComment.likeCount =
                  parseInt (case CommentSnippet.likeCount sn of
                              None \<Rightarrow> ''0''
                            | Some n \<Rightarrow> if n = 0 then ''0'' else intToString n),
                NewComment.dislikeCount = Num 0,
                NewComment.publishedAt = DateOf (CommentSnippet.publishedAt sn) \<rparr>)"

text \<open>
  The loop over the comments of one video. (The array \<^verbatim>\<open>newComments\<close> that the
  source fills here is never read, and is left out.)
\<close>

fun insertComments ::
  "row_id \<Rightarrow> string \<Rightarrow> YouTubeComment list \<Rightarrow> world \<Rightarrow> (error + unit) \<times> world" where
  "insertComments rowId uid [] w = (Inr (), w)"
| "insertComments rowId uid (comment # rest) w =
     (case newCommentOf rowId uid comment of
        Inl e \<Rightarrow> (Inl e, w)
      | Inr nc \<Rightarrow> insertComments rowId uid rest (snd (insertComment nc w)))"

text \<open>
  The loop over the details of one channel's videos. The result is \<open>None\<close>
  when a comment pagination never ends; an exception leaves the loop with the
  world as it is at the throw.
\<close>

fun videos_loop ::
  "youtube \<Rightarrow> string \<Rightarrow> string \<Rightarrow> YouTubeVideo list \<Rightarrow> Video list \<Rightarrow> world
     \<Rightarrow> ((error + Video list) \<times> world) option" where
  "videos_loop yt uid chanId [] newVideos w = Some (Inr newVideos, w)"
| "videos_loop yt uid chanId (video # rest) newVideos w =
     (case upsertVideo uid chanId video newVideos w of
        (Inl e, w1) \<Rightarrow> Some (Inl e, w1)
      | (Inr (rowId, newVideos1), w1) \<Rightarrow>
          (case fetchVideoComments yt (YouTubeVideo.videoId video) of
             None \<Rightarrow> None
           | Some (comments, calls) \<Rightarrow>
               (case insertComments rowId uid comments (send calls w1) of
                  (Inl e, w2) \<Rightarrow> Some (Inl e, w2)
                | (Inr u, w2) \<Rightarrow> videos_loop yt uid chanId rest newVideos1 w2)))"

text \<open>The loop over the user's channels.\<close>

fun channels_loop ::
  "youtube \<Rightarrow> string \<Rightarrow> YouTubeChannelType list \<Rightarrow> Video list \<Rightarrow> world
     \<Rightarrow> ((error + Video list) \<times> world) option" where
  "channels_loop yt uid [] newVideos w = Some (Inr newVideos, w)"
| "channels_loop yt uid (channel # rest) newVideos w =
     (case resolveChannel yt uid channel w of
        (None, w1) \<Rightarrow> channels_loop yt uid rest newVideos w1
      | (Some chanId, w1) \<Rightarrow>
          (case fetchAllVideosForChannel yt chanId of
             None \<Rightarrow> None
           | Some (videoIds, calls) \<Rightarrow>
               (case videos_loop yt uid chanId (fetchVideoDetails yt videoIds) newVideos
                       (send (calls @ fetchVideoDetails_calls videoIds) w1) of
                  None \<Rightarrow> None
                | Some (Inl e, w2) \<Rightarrow> Some (Inl e, w2)
                | Some (Inr newVideos1, w2) \<Rightarrow> channels_loop yt uid rest newVideos1 w2)))"

text \<open>
  \<^verbatim>\<open>scrapeVideos\<close>, given the identity \<^verbatim>\<open>auth()\<close> resolves to. A thrown error
  is \<open>Inl\<close>, with the world at the throw.
\<close>

definition scrapeVideos ::
  "youtube \<Rightarrow> string option \<Rightarrow> world \<Rightarrow> ((error + Video list) \<times> world) option" where
  "scrapeVideos yt auth w =
     (if \<not> truthy auth then Some (Inl NotAuthenticated, w)
      else if filter (\<lambda>c. YouTubeChannelType.userId c = the auth) (YouTubeChannels w) = []
      then Some (Inl NoChannels, w)
      else channels_loop yt (the auth)
             (filter (\<lambda>c. YouTubeChannelType.userId c = the auth) (YouTubeChannels w)) [] w)"

section \<open>Statistics Refresher\<close>

text \<open>
  The update of the refresh: the four counters and \<^verbatim>\<open>updatedAt\<close> of every row
  whose upstream identifier is the given one (the predicate of the source is
  \<^verbatim>\<open>eq(Videos.videoId, video.videoId)\<close> alone).
\<close>

definition updateStatistics :: "string \<Rightarrow> VideoStatistics \<Rightarrow> world \<Rightarrow> world" where
  "updateStatistics vidId st w =
     w\<lparr> Videos :=
          map (\<lambda>r. if Video.videoId r = vidId
                   then r\<lparr> Video.viewCount :=
                            parseInt (or_else (VideoStatistics.viewCount st) ''0''),
                          Video.likeCount :=
                            parseInt (or_else (VideoStatistics.likeCount st) ''0''),
                          Video.dislikeCount :=
                            parseInt (or_else (VideoStatistics.dislikeCount st) ''0''),
                          Video.commentCount :=
                            parseInt (or_else (VideoStatistics.commentCount st) ''0''),
                          Video.updatedAt := Now (clockReads w) \<rparr>
                   else r) (Videos w),
        clockReads := Suc (clockReads w) \<rparr>"

text \<open>
  The loop over the user's stored videos:
  \<^verbatim>\<open>const [updatedVideo] = await fetchVideoDetails([video.videoId])\<close>, then the
  update when there is one. \<^verbatim>\<open>updatedVideo.statistics.viewCount\<close> throws when the
  statistics are absent.
\<close>

fun refresh_loop :: "youtube \<Rightarrow> Video list \<Rightarrow> world \<Rightarrow> (error + unit) \<times> world" where
  "refresh_loop yt [] w = (Inr (), w)"
| "refresh_loop yt (video # rest) w =
     (case fetchVideoDetails yt [Video.videoId video] of
        [] \<Rightarrow> refresh_loop yt rest (send (fetchVideoDetails_calls [Video.videoId video]) w)
      | updatedVideo # _ \<Rightarrow>
          (case YouTubeVideo.statistics updatedVideo of
             None \<Rightarrow> (Inl TypeError, send (fetchVideoDetails_calls [Video.videoId video]) w)
           | Some st \<Rightarrow>
               refresh_loop yt rest
                 (updateStatistics (Video.videoId video) st
                    (send (fetchVideoDetails_calls [Video.videoId video]) w))))"

definition updateVideoStatistics ::
  "youtube \<Rightarrow> string option \<Rightarrow> world \<Rightarrow> (error + unit) \<times> world" where
  "updateVideoStatistics yt auth w =
     (if \<not> truthy auth then (Inl NotAuthenticated, w)
      else refresh_loop yt (filter (\<lambda>r. Video.userId r = the auth) (Videos w)) w)"

section \<open>Upstream response sequences\<close>

text \<open>
  The responses a pagination meets, as a list: every response but the last
  carries a continuation token, and the request with that token is answered by
  the next response; the last one carries no token (or is a failure).
\<close>

fun nextToken :: "SearchListResponse response \<Rightarrow> string option" where
  "nextToken Rejected = None"
| "nextToken (Resolved data) = SearchListResponse.nextPageToken data"

text \<open>
  The video identifiers a page lists, read off its items one by one: every
  item's identifier that is present and not empty, in the order of the items.
  A failed request lists nothing.
\<close>

fun listedIds :: "SearchResult list \<Rightarrow> string list" where
  "listedIds [] = []"
| "listedIds (item # its) =
     (case SearchResult.id' item of
        None \<Rightarrow> listedIds its
      | Some rid \<Rightarrow>
          (case ResourceId.videoId rid of
             None \<Rightarrow> listedIds its
           | Some v \<Rightarrow> if v = [] then listedIds its else v # listedIds its))"

definition pageIdentifiers :: "SearchListResponse \<Rightarrow> string list" where
  "pageIdentifiers data =
     (case SearchListResponse.items data of None \<Rightarrow> [] | Some its \<Rightarrow> listedIds its)"

fun responseVideoIds :: "SearchListResponse response \<Rightarrow> string list" where
  "responseVideoIds Rejected = []"
| "responseVideoIds (Resolved data) = pageIdentifiers data"

fun videoPagesFrom ::
  "youtube \<Rightarrow> string \<Rightarrow> string option \<Rightarrow> SearchListResponse response list \<Rightarrow> bool" where
  "videoPagesFrom yt chanId tok [] = False"
| "videoPagesFrom yt chanId tok (r # rs) =
     (search_list yt (VideoQuery chanId tok) = r \<and>
      (if truthy (nextToken r) then videoPagesFrom yt chanId (nextToken r) rs else rs = []))"

text \<open>One request per response of the sequence, each with the token of the response before.\<close>

fun videoRequests ::
  "string \<Rightarrow> string option \<Rightarrow> SearchListResponse response list \<Rightarrow> api_call list" where
  "videoRequests chanId tok [] = []"
| "videoRequests chanId tok (r # rs) =
     SearchList (VideoQuery chanId tok) # videoRequests chanId (nextToken r) rs"

text \<open>
  The same for comment pages. A page whose items cannot be read (the TypeError
  of the page's \<^verbatim>\<open>map\<close>) counts as a failure: it gives no comments and no
  token. The list holds the first responses of the pagination: every response
  but the last carries a token that the next one answers; the last one may or
  may not carry one.
\<close>

fun threadToken :: "CommentThreadListResponse response \<Rightarrow> string option" where
  "threadToken Rejected = None"
| "threadToken (Resolved data) =
     (case pageComments data of
        Inl e \<Rightarrow> None
      | Inr cs \<Rightarrow> CommentThreadListResponse.nextPageToken data)"

fun responseComments :: "CommentThreadListResponse response \<Rightarrow> YouTubeComment list" where
  "responseComments Rejected = []"
| "responseComments (Resolved data) =
     (case pageComments data of Inl e \<Rightarrow> [] | Inr cs \<Rightarrow> cs)"

fun firstCommentPages ::
  "youtube \<Rightarrow> string \<Rightarrow> string option \<Rightarrow> CommentThreadListResponse response list \<Rightarrow> bool" where
  "firstCommentPages yt vidId tok [] = False"
| "firstCommentPages yt vidId tok (r # rs) =
     (commentThreads_list yt vidId tok = r \<and>
      (rs = [] \<or> truthy (threadToken r) \<and> firstCommentPages yt vidId (threadToken r) rs))"

section \<open>What a refresh may change\<close>

text \<open>
  Two versions of a video row that agree on every column but the four counters
  and \<^verbatim>\<open>updatedAt\<close>.
\<close>

definition sameButStatistics :: "Video \<Rightarrow> Video \<Rightarrow> bool" where
  "sameButStatistics r r' =
     (Video.id' r' = Video.id' r \<and> Video.videoId r' = Video.videoId r \<and>
      Video.title r' = Video.title r \<and> Video.description r' = Video.description r \<and>
      Video.publishedAt r' = Video.publishedAt r \<and>
      Video.thumbnailUrl r' = Video.thumbnailUrl r \<and>
      Video.channelId r' = Video.channelId r \<and>
      Video.channelTitle r' = Video.channelTitle r \<and>
      Video.userId r' = Video.userId r \<and> Video.createdAt r' = Video.createdAt r)"

section \<open>Observations on a run\<close>

text \<open>The channel names searched for, among the requests sent.\<close>

fun channelSearches :: "api_call list \<Rightarrow> string list" where
  "channelSearches [] = []"
| "channelSearches (SearchList (ChannelQuery n) # cs) = n # channelSearches cs"
| "channelSearches (c # cs) = channelSearches cs"

text \<open>
  The channel identifier the loop body works with for a channel record: the
  stored one when it is set, else the one the resolver finds (\<open>None\<close>: the
  channel is skipped).
\<close>

definition effectiveChannelId :: "youtube \<Rightarrow> YouTubeChannelType \<Rightarrow> string option" where
  "effectiveChannelId yt c =
     (if truthy (YouTubeChannelType.channelId c) then YouTubeChannelType.channelId c
      else getChannelId yt (name c))"

text \<open>What a comment row holds besides its generated identifier.\<close>

definition commentContent :: "VideoComment \<Rightarrow> NewComment" where
  "commentContent r =
     \<lparr> NewComment.videoId = VideoComment.videoId r,
       NewComment.userId = VideoComment.userId r,
       NewComment.commentText = VideoComment.commentText r,
       NewComment.likeCount = VideoComment.likeCount r,
       NewComment.dislikeCount = VideoComment.dislikeCount r,
       NewComment.publishedAt = VideoComment.publishedAt r \<rparr>"

text \<open>
  The comment rows two runs add (the first from \<open>wa\<close> to \<open>wa'\<close>, the second from
  \<open>wb\<close> to \<open>wb'\<close>) are the same but for their generated identifiers.
\<close>

definition sameNewComments :: "world \<Rightarrow> world \<Rightarrow> world \<Rightarrow> world \<Rightarrow> bool" where
  "sameNewComments wa wa' wb wb' =
     (\<exists>ca cb. VideoComments wa' = VideoComments wa @ ca \<and>
              VideoComments wb' = VideoComments wb @ cb \<and>
              map commentContent ca = map commentContent cb)"

text \<open>The names of the channel records whose upstream identifier is not set.\<close>

definition unsetNames :: "YouTubeChannelType list \<Rightarrow> string list" where
  "unsetNames chans = map name (filter (\<lambda>c. \<not> truthy (YouTubeChannelType.channelId c)) chans)"

text \<open>
  How the result of a second run answers the result of the first: the same
  error, or the new videos the second run started with.
\<close>

definition mirrors :: "error + Video list \<Rightarrow> error + Video list \<Rightarrow> Video list \<Rightarrow> bool" where
  "mirrors ra rb nvb = (case ra of Inl e \<Rightarrow> rb = Inl e | Inr vs \<Rightarrow> rb = Inr nvb)"

text \<open>
  Two versions of a channel record that lead a run to the same channel
  identifier.
\<close>

definition sameChannel :: "youtube \<Rightarrow> YouTubeChannelType \<Rightarrow> YouTubeChannelType \<Rightarrow> bool" where
  "sameChannel yt a b =
     (YouTubeChannelType.userId b = YouTubeChannelType.userId a \<and>
      YouTubeChannelType.id' b = YouTubeChannelType.id' a \<and>
      effectiveChannelId yt b = effectiveChannelId yt a)"

text \<open>
  What a finished run leaves behind for a channel identifier: the listing of
  the channel ends, every listed video has a row of the user, and the video's
  comments can be fetched and stored.
\<close>

definition commentsStorable :: "youtube \<Rightarrow> YouTubeVideo \<Rightarrow> bool" where
  "commentsStorable yt video =
     (case fetchVideoComments yt (YouTubeVideo.videoId video) of
        None \<Rightarrow> False
      | Some (comments, calls) \<Rightarrow> list_all (\<lambda>c. YouTubeComment.snippet c \<noteq> None) comments)"

definition videoKnown :: "youtube \<Rightarrow> string \<Rightarrow> world \<Rightarrow> YouTubeVideo \<Rightarrow> bool" where
  "videoKnown yt uid w video =
     (existingVideo (YouTubeVideo.videoId video) uid w \<noteq> [] \<and> commentsStorable yt video)"

definition covered :: "youtube \<Rightarrow> string \<Rightarrow> world \<Rightarrow> string \<Rightarrow> bool" where
  "covered yt uid w chanId =
     (case fetchAllVideosForChannel yt chanId of
        None \<Rightarrow> False
      | Some (videoIds, calls) \<Rightarrow> list_all (videoKnown yt uid w) (fetchVideoDetails yt videoIds))"

text \<open>
  A channel record a later run has nothing new to do for: its identifier is
  set and covered, or it is unset and the resolver finds nothing.
\<close>

definition settled :: "youtube \<Rightarrow> string \<Rightarrow> world \<Rightarrow> YouTubeChannelType \<Rightarrow> bool" where
  "settled yt uid w c =
     (if truthy (YouTubeChannelType.channelId c)
      then covered yt uid w (the (YouTubeChannelType.channelId c))
      else getChannelId yt (name c) = None)"

section \<open>Sample upstream catalogs and stores\<close>

definition sampleThumbnails :: ThumbnailDetails where
  "sampleThumbnails =
     \<lparr> maxres = None, standard = None, high = None,
       medium = Some \<lparr> url = Some ''https://img.example/m.jpg'' \<rparr>,
       default_variant = Some \<lparr> url = Some ''https://img.example/d.jpg'' \<rparr> \<rparr>"

definition sampleSnippet :: VideoSnippet where
  "sampleSnippet =
     \<lparr> VideoSnippet.title = Some ''Launch'',
       VideoSnippet.description = Some ''First video'',
       VideoSnippet.publishedAt = Some ''2024-01-01T00:00:00Z'',
       VideoSnippet.thumbnails = Some sampleThumbnails,
       VideoSnippet.channelTitle = Some ''Acme'' \<rparr>"

text \<open>Statistics with one counter missing and one empty.\<close>

definition sampleStatistics :: VideoStatistics where
  "sampleStatistics =
     \<lparr> VideoStatistics.viewCount = Some ''10'',
       VideoStatistics.likeCount = None,
       VideoStatistics.dislikeCount = Some '''',
       VideoStatistics.commentCount = Some ''2'' \<rparr>"

definition sampleItem :: "string \<Rightarrow> Schema_Video" where
  "sampleItem i =
     \<lparr> Schema_Video.id' = i,
       Schema_Video.snippet = Some sampleSnippet,
       Schema_Video.statistics = Some sampleStatistics \<rparr>"

definition videoHit :: "string \<Rightarrow> SearchResult" where
  "videoHit i = \<lparr> SearchResult.id' = Some \<lparr> ResourceId.channelId = None, ResourceId.videoId = Some i \<rparr> \<rparr>"

definition channelHit :: "string \<Rightarrow> SearchResult" where
  "channelHit c = \<lparr> SearchResult.id' = Some \<lparr> ResourceId.channelId = Some c, ResourceId.videoId = None \<rparr> \<rparr>"

definition sampleCommentSnippet :: CommentSnippet where
  "sampleCommentSnippet =
     \<lparr> textDisplay = Some ''nice'',
       CommentSnippet.likeCount = Some 3,
       CommentSnippet.publishedAt = Some ''2024-01-02T00:00:00Z'' \<rparr>"

definition sampleThread :: CommentThread where
  "sampleThread =
     \<lparr> CommentThread.id' = Some ''c1'',
       CommentThread.snippet =
         Some \<lparr> topLevelComment = Some \<lparr> Comment.snippet = Some sampleCommentSnippet \<rparr> \<rparr> \<rparr>"

definition sampleComment :: YouTubeComment where
  "sampleComment =
     \<lparr> YouTubeComment.id' = Some ''c1'', YouTubeComment.snippet = Some sampleCommentSnippet \<rparr>"

definition sampleVideo :: "string \<Rightarrow> YouTubeVideo" where
  "sampleVideo i =
     \<lparr> YouTubeVideo.videoId = i,
       YouTubeVideo.snippet = Some sampleSnippet,
       YouTubeVideo.statistics = Some sampleStatistics \<rparr>"

definition searchPage :: "SearchResult list \<Rightarrow> string option \<Rightarrow> SearchListResponse" where
  "searchPage its tok =
     \<lparr> SearchListResponse.items = Some its, SearchListResponse.nextPageToken = tok \<rparr>"

definition threadPage :: "CommentThread list \<Rightarrow> string option \<Rightarrow> CommentThreadListResponse" where
  "threadPage its tok =
     \<lparr> CommentThreadListResponse.items = Some its,
       CommentThreadListResponse.nextPageToken = tok \<rparr>"

text \<open>
  A catalog: the name \<open>Acme\<close> resolves to the channel \<open>UC1\<close>, which lists \<open>v1\<close>
  and \<open>v2\<close> on two pages; the listing of \<open>UC2\<close> fails on its second page;
  \<open>UC3\<close> lists six videos on three pages, between items that carry no video
  identifier; the listing of \<open>UC4\<close> fails on its third page;
  details exist for every video but \<open>gone\<close>; \<open>v1\<close> has one comment, \<open>busy\<close>
  a first page of a hundred, and every other comment request fails.
\<close>

definition sampleSearch :: "search_params \<Rightarrow> SearchListResponse response" where
  "sampleSearch q =
     (case q of
        ChannelQuery n \<Rightarrow>
          if n = ''Acme'' then Resolved (searchPage [channelHit ''UC1''] None)
          else Resolved (searchPage [] None)
      | VideoQuery c tok \<Rightarrow>
          if c = ''UC1'' \<and> tok = None then Resolved (searchPage [videoHit ''v1''] (Some ''p2''))
          else if c = ''UC1'' \<and> tok = Some ''p2'' then Resolved (searchPage [videoHit ''v2''] None)
          else if c = ''UC2'' \<and> tok = None then Resolved (searchPage [videoHit ''v9''] (Some ''p2''))
          else if c = ''UC3'' \<and> tok = None
          then Resolved (searchPage [videoHit ''a1'', channelHit ''UC3'', videoHit ''a2''] (Some ''p2''))
          else if c = ''UC3'' \<and> tok = Some ''p2''
          then Resolved (searchPage [videoHit ''a3'', videoHit [], videoHit ''a4''] (Some ''p3''))
          else if c = ''UC3'' \<and> tok = Some ''p3''
          then Resolved (searchPage [videoHit ''a5'', videoHit ''a6''] None)
          else if c = ''UC4'' \<and> tok = None
          then Resolved (searchPage [videoHit ''b1'', videoHit ''b2''] (Some ''p2''))
          else if c = ''UC4'' \<and> tok = Some ''p2''
          then Resolved (searchPage [videoHit ''b3'', videoHit ''b4''] (Some ''p3''))
          else Rejected)"

definition sampleVideos :: "string list \<Rightarrow> VideoListResponse response" where
  "sampleVideos ids =
     (if ids = [''gone''] then Resolved \<lparr> VideoListResponse.items = Some [] \<rparr>
      else Resolved \<lparr> VideoListResponse.items = Some (map sampleItem ids) \<rparr>)"

definition sampleThreads :: "string \<Rightarrow> string option \<Rightarrow> CommentThreadListResponse response" where
  "sampleThreads v tok =
     (if v = ''v1'' \<and> tok = None then Resolved (threadPage [sampleThread] None)
      else if v = ''busy'' \<and> tok = None
      then Resolved (threadPage (replicate 100 sampleThread) (Some ''c2''))
      else Rejected)"

definition sampleYoutube :: youtube where
  "sampleYoutube =
     \<lparr> search_list = sampleSearch,
       videos_list = sampleVideos,
       commentThreads_list = sampleThreads \<rparr>"

text \<open>An API that rejects every request.\<close>

definition offlineYoutube :: youtube where
  "offlineYoutube =
     \<lparr> search_list = (\<lambda>q. Rejected),
       videos_list = (\<lambda>ids. Rejected),
       commentThreads_list = (\<lambda>v tok. Rejected) \<rparr>"

text \<open>An API that answers every details request with the same two items.\<close>

definition generousYoutube :: youtube where
  "generousYoutube =
     sampleYoutube\<lparr> videos_list :=
       (\<lambda>ids. Resolved \<lparr> VideoListResponse.items = Some [sampleItem ''x'', sampleItem ''y''] \<rparr>) \<rparr>"

text \<open>An API that does not know \<open>gone\<close> either, and whose video items carry no statistics.\<close>

definition bareVideos :: "string list \<Rightarrow> VideoListResponse response" where
  "bareVideos ids =
     (if ids = [''gone''] then Resolved \<lparr> VideoListResponse.items = Some [] \<rparr>
      else Resolved \<lparr> VideoListResponse.items =
             Some (map (\<lambda>i. (sampleItem i)\<lparr> Schema_Video.statistics := None \<rparr>) ids) \<rparr>)"

definition bareYoutube :: youtube where
  "bareYoutube = sampleYoutube\<lparr> videos_list := bareVideos \<rparr>"

definition emptyWorld :: world where
  "emptyWorld =
     \<lparr> YouTubeChannels = [], Videos = [], VideoComments = [],
       nextId = 0, clockReads = 0, requests = [] \<rparr>"

definition acmeChannel :: "string option \<Rightarrow> YouTubeChannelType" where
  "acmeChannel cid =
     \<lparr> YouTubeChannelType.id' = 1, name = ''Acme'',
       YouTubeChannelType.channelId = cid,
       YouTubeChannelType.userId = ''alice'',
       YouTubeChannelType.createdAt = Now 0,
       YouTubeChannelType.updatedAt = Now 0 \<rparr>"

text \<open>Alice has registered \<open>Acme\<close>; the channel is not resolved yet.\<close>

definition aliceWorld :: world where
  "aliceWorld = emptyWorld\<lparr> YouTubeChannels := [acmeChannel None], nextId := 2, clockReads := 1 \<rparr>"

text \<open>The same with the channel identifier already stored.\<close>

definition resolvedWorld :: world where
  "resolvedWorld = aliceWorld\<lparr> YouTubeChannels := [acmeChannel (Some ''UC1'')] \<rparr>"

definition storedVideo :: "row_id \<Rightarrow> string \<Rightarrow> string \<Rightarrow> Video" where
  "storedVideo rid vid uid =
     \<lparr> Video.id' = rid, Video.videoId = vid,
       Video.title = Some ''Launch'', Video.description = Some ''First video'',
       Video.publishedAt = DateOf (Some ''2024-01-01T00:00:00Z''),
       Video.thumbnailUrl = Some ''https://img.example/m.jpg'',
       Video.channelId = ''UC1'', Video.channelTitle = Some ''Acme'',
       Video.userId = uid,
       Video.viewCount = Num 1, Video.likeCount = Num 1,
       Video.dislikeCount = Num 1, Video.commentCount = Num 1,
       Video.createdAt = Now 0, Video.updatedAt = Now 0 \<rparr>"

text \<open>Alice and Bob have both stored the upstream video \<open>v1\<close>.\<close>

definition sharedWorld :: world where
  "sharedWorld =
     emptyWorld\<lparr> Videos := [storedVideo 1 ''v1'' ''alice'', storedVideo 2 ''v1'' ''bob''],
                 nextId := 3, clockReads := 1 \<rparr>"

text \<open>Alice has stored \<open>gone\<close>, which the catalog no longer knows, and \<open>v1\<close>.\<close>

definition goneWorld :: world where
  "goneWorld =
     emptyWorld\<lparr> Videos := [storedVideo 1 ''gone'' ''alice'', storedVideo 2 ''v1'' ''alice''],
                 nextId := 3, clockReads := 1 \<rparr>"

text \<open>Alice's first ingestion, and one that starts with the channel resolved.\<close>

definition aliceRun :: "(error + Video list) \<times> world" where
  "aliceRun = the (scrapeVideos sampleYoutube (Some ''alice'') aliceWorld)"

definition resolvedRun :: "(error + Video list) \<times> world" where
  "resolvedRun = the (scrapeVideos sampleYoutube (Some ''alice'') resolvedWorld)"

text \<open>Alice's second ingestion, right after the first.\<close>

definition secondRun :: "(error + Video list) \<times> world" where
  "secondRun = the (scrapeVideos sampleYoutube (Some ''alice'') (snd aliceRun))"

text \<open>
  Stores for the resolver: Alice has registered \<open>Acme\<close> twice; Alice's channel
  has the empty string as identifier; Alice has registered \<open>Acme\<close> and a name
  the catalog does not know.
\<close>

definition twinWorld :: world where
  "twinWorld =
     emptyWorld\<lparr> YouTubeChannels :=
                   [acmeChannel None, (acmeChannel None)\<lparr> YouTubeChannelType.id' := 2 \<rparr>],
                 nextId := 3, clockReads := 1 \<rparr>"

definition blankWorld :: world where
  "blankWorld = aliceWorld\<lparr> YouTubeChannels := [acmeChannel (Some [])] \<rparr>"

definition nobodyWorld :: world where
  "nobodyWorld =
     emptyWorld\<lparr> YouTubeChannels :=
                   [acmeChannel None,
                    (acmeChannel None)\<lparr> YouTubeChannelType.id' := 2, name := ''Nobody'' \<rparr>],
                 nextId := 3, clockReads := 1 \<rparr>"

definition twinRun :: "(error + Video list) \<times> world" where
  "twinRun = the (scrapeVideos sampleYoutube (Some ''alice'') twinWorld)"

definition blankRun :: "(error + Video list) \<times> world" where
  "blankRun = the (scrapeVideos sampleYoutube (Some ''alice'') blankWorld)"

definition nobodyRun :: "(error + Video list) \<times> world" where
  "nobodyRun = the (scrapeVideos sampleYoutube (Some ''alice'') nobodyWorld)"

definition nobodyRerun :: "(error + Video list) \<times> world" where
  "nobodyRerun = the (scrapeVideos sampleYoutube (Some ''alice'') (snd nobodyRun))"

section \<open>Basic facts\<close>

lemma truthy_None [simp]: "\<not> truthy None"
  by (simp add: truthy_def)

lemma truthy_Some [simp]: "truthy (Some s) = (s \<noteq> [])"
  by (simp add: truthy_def)

lemma parseInt_zero: "parseInt ''0'' = Num 0"
  by (simp add: parseInt_def isWhiteSpace_def isDigit_def digitsValue_def)

lemma or_else_absent: "\<not> truthy v \<Longrightarrow> or_else v d = d"
  by (simp add: or_else_def)

section \<open>Thumbnail Selector\<close>

text \<open>
  C9: when the default variant is present, \<open>getBestThumbnail\<close> returns, without
  error, the URL of the first variant present in the order maxres, standard,
  high, medium, default: medium's for medium and default only, default's for
  default only, maxres's for all five.
\<close>

theorem getBestThumbnail_highest_present:
  "(default_variant t = Some d \<longrightarrow>
      (\<exists>v. highestPresent t = Some v \<and> getBestThumbnail t = Inr (url v))) \<and>
   getBestThumbnail \<lparr> maxres = None, standard = None, high = None,
                      medium = Some m, default_variant = Some d \<rparr> = Inr (url m) \<and>
   getBestThumbnail \<lparr> maxres = None, standard = None, high = None,
                      medium = None, default_variant = Some d \<rparr> = Inr (url d) \<and>
   getBestThumbnail \<lparr> maxres = Some x, standard = Some s, high = Some h,
                      medium = Some m, default_variant = Some d \<rparr> = Inr (url x)"
  by (auto simp: highestPresent_def priorityOrder_def getBestThumbnail_def split: option.splits)

theorem getBestThumbnail_highest_present_witness:
  "default_variant sampleThumbnails = Some \<lparr> url = Some ''https://img.example/d.jpg'' \<rparr> \<and>
   highestPresent sampleThumbnails = Some \<lparr> url = Some ''https://img.example/m.jpg'' \<rparr> \<and>
   getBestThumbnail sampleThumbnails = Inr (Some ''https://img.example/m.jpg'')"
  using getBestThumbnail_highest_present
          [of sampleThumbnails "\<lparr> url = Some ''https://img.example/d.jpg'' \<rparr>"]
  by (auto simp: sampleThumbnails_def highestPresent_def priorityOrder_def)

section \<open>Preconditions of the ingestion\<close>

text \<open>
  C4: with no authenticated identity \<open>scrapeVideos\<close> throws, and with an
  identity that has no registered channel it throws; in both cases the world
  is the one it started in: nothing is written to the store and no request is
  sent upstream.
\<close>

theorem scrapeVideos_precondition:
  "(\<not> truthy auth \<longrightarrow> scrapeVideos yt auth w = Some (Inl NotAuthenticated, w)) \<and>
   (truthy auth \<and> (\<forall>c \<in> set (YouTubeChannels w). YouTubeChannelType.userId c \<noteq> the auth) \<longrightarrow>
      scrapeVideos yt auth w = Some (Inl NoChannels, w))"
  by (simp add: scrapeVideos_def filter_empty_conv)

theorem scrapeVideos_precondition_witness:
  "\<not> truthy None \<and>
   scrapeVideos sampleYoutube None aliceWorld = Some (Inl NotAuthenticated, aliceWorld) \<and>
   truthy (Some ''bob'') \<and>
   map YouTubeChannelType.userId (YouTubeChannels aliceWorld) = [''alice''] \<and>
   scrapeVideos sampleYoutube (Some ''bob'') aliceWorld = Some (Inl NoChannels, aliceWorld)"
proof -
  have h: "\<forall>c \<in> set (YouTubeChannels aliceWorld). YouTubeChannelType.userId c \<noteq> the (Some ''bob'')"
    by (simp add: aliceWorld_def acmeChannel_def emptyWorld_def)
  have u: "map YouTubeChannelType.userId (YouTubeChannels aliceWorld) = [''alice'']"
    by (simp add: aliceWorld_def acmeChannel_def emptyWorld_def)
  from h u scrapeVideos_precondition [of None sampleYoutube aliceWorld]
    scrapeVideos_precondition [of "Some ''bob''" sampleYoutube aliceWorld]
  show ?thesis by simp
qed

section \<open>Video Detail Fetcher\<close>

text \<open>
  C6, as the code has it: \<open>fetchVideoDetails\<close> returns one record per item of the
  upstream response, in the response's order and with the item's identifier,
  and nothing when the request fails. So its output is no longer than its
  input and names only identifiers of the input whenever the upstream response
  is and does.
\<close>

theorem fetchVideoDetails_mirrors_upstream:
  "(videos_list yt ids = Rejected \<longrightarrow> fetchVideoDetails yt ids = []) \<and>
   (videos_list yt ids = Resolved data \<longrightarrow>
      map YouTubeVideo.videoId (fetchVideoDetails yt ids) =
        map Schema_Video.id' (case VideoListResponse.items data of None \<Rightarrow> [] | Some its \<Rightarrow> its)) \<and>
   (videos_list yt ids = Resolved data \<and> VideoListResponse.items data = Some its \<and>
    length its \<le> length ids \<and> set (map Schema_Video.id' its) \<subseteq> set ids \<longrightarrow>
      length (fetchVideoDetails yt ids) \<le> length ids \<and>
      set (map YouTubeVideo.videoId (fetchVideoDetails yt ids)) \<subseteq> set ids)"
  by (auto simp: fetchVideoDetails_def comp_def split: option.splits)

theorem fetchVideoDetails_mirrors_upstream_witness:
  "videos_list offlineYoutube [''v1''] = Rejected \<and>
   fetchVideoDetails offlineYoutube [''v1''] = [] \<and>
   videos_list offlineYoutube [''v1'', ''v2''] \<noteq> Resolved \<lparr> VideoListResponse.items = None \<rparr> \<and>
   videos_list sampleYoutube [''v1'', ''v2''] =
     Resolved \<lparr> VideoListResponse.items = Some [sampleItem ''v1'', sampleItem ''v2''] \<rparr> \<and>
   length [sampleItem ''v1'', sampleItem ''v2''] \<le> length [''v1'', ''v2''] \<and>
   set (map Schema_Video.id' [sampleItem ''v1'', sampleItem ''v2'']) \<subseteq> set [''v1'', ''v2''] \<and>
   map YouTubeVideo.videoId (fetchVideoDetails sampleYoutube [''v1'', ''v2'']) = [''v1'', ''v2''] \<and>
   length (fetchVideoDetails sampleYoutube [''v1'', ''v2'']) \<le> length [''v1'', ''v2''] \<and>
   set (map YouTubeVideo.videoId (fetchVideoDetails sampleYoutube [''v1'', ''v2'']))
     \<subseteq> set [''v1'', ''v2'']"
proof -
  have r: "videos_list offlineYoutube [''v1''] = Rejected"
    by (simp add: offlineYoutube_def)
  have v: "videos_list sampleYoutube [''v1'', ''v2''] =
      Resolved \<lparr> VideoListResponse.items = Some [sampleItem ''v1'', sampleItem ''v2''] \<rparr>"
    by (simp add: sampleYoutube_def sampleVideos_def)
  have i: "map Schema_Video.id' [sampleItem ''v1'', sampleItem ''v2''] = [''v1'', ''v2'']"
    by (simp add: sampleItem_def)
  from r v i
    fetchVideoDetails_mirrors_upstream [of offlineYoutube "[''v1'']"]
    fetchVideoDetails_mirrors_upstream
      [of sampleYoutube "[''v1'', ''v2'']"
          "\<lparr> VideoListResponse.items = Some [sampleItem ''v1'', sampleItem ''v2''] \<rparr>"
          "[sampleItem ''v1'', sampleItem ''v2'']"]
  show ?thesis by (simp add: offlineYoutube_def)
qed

text \<open>
  C6 as stated fails: the code does not compare the response with the request,
  so an upstream that answers a request for one identifier with two items makes
  the output longer than the input, with identifiers that were not asked for.
\<close>

theorem fetchVideoDetails_bound_counterexample:
  "\<not> (length (fetchVideoDetails generousYoutube [''v1'']) \<le> length [''v1''] \<and>
      set (map YouTubeVideo.videoId (fetchVideoDetails generousYoutube [''v1''])) \<subseteq> set [''v1''])"
  by (simp add: fetchVideoDetails_def generousYoutube_def sampleItem_def)

section \<open>Video Enumerator\<close>

lemma filtered_listedIds:
  "map the (filter truthy
     (map (\<lambda>item. case SearchResult.id' item of
                       None \<Rightarrow> None
                     | Some rid \<Rightarrow> ResourceId.videoId rid) its)) = listedIds its"
  by (induction its) (auto split: option.splits)

lemma pageVideoIds_listed: "pageVideoIds data = pageIdentifiers data"
  by (simp add: pageVideoIds_def pageIdentifiers_def filtered_listedIds split: option.splits)

lemma fetchAllVideos_loop_pages:
  "videoPagesFrom yt chanId tok rs \<Longrightarrow>
   fetchAllVideos_loop yt chanId acc tok sent =
     Some (acc @ concat (map responseVideoIds rs), sent @ videoRequests chanId tok rs)"
proof (induction rs arbitrary: acc tok sent)
  case Nil
  then show ?case by simp
next
  case (Cons r rs)
  show ?case
  proof (cases r)
    case Rejected
    with Cons.prems show ?thesis
      by (subst fetchAllVideos_loop.simps) simp
  next
    case (Resolved data)
    show ?thesis
    proof (cases "truthy (SearchListResponse.nextPageToken data)")
      case True
      with Cons.prems Resolved
      have "videoPagesFrom yt chanId (SearchListResponse.nextPageToken data) rs" by simp
      from Cons.IH [OF this] Cons.prems Resolved True show ?thesis
        by (subst fetchAllVideos_loop.simps) (simp add: pageVideoIds_listed)
    next
      case False
      with Cons.prems Resolved show ?thesis
        by (subst fetchAllVideos_loop.simps) (simp add: pageVideoIds_listed)
    qed
  qed
qed

lemma length_videoRequests: "length (videoRequests chanId tok rs) = length rs"
  by (induction rs arbitrary: tok) auto

text \<open>
  C7: when the upstream answers with a finite sequence of pages, each page
  with a token answered by the next and the last without one,
  \<open>fetchAllVideosForChannel\<close> returns, and returns every video identifier the
  pages list, page after page and in the order of each page's items, after one
  request per page. When a request fails the sequence ends there: the result
  is what the pages before the failure list, and no request follows the failed
  one.
\<close>

theorem fetchAllVideosForChannel_pages:
  "videoPagesFrom yt chanId None rs \<Longrightarrow>
     fetchAllVideosForChannel yt chanId =
       Some (concat (map responseVideoIds rs), videoRequests chanId None rs) \<and>
     length (videoRequests chanId None rs) = length rs \<and>
     (rs = map Resolved ds @ [Rejected] \<longrightarrow>
        fetchAllVideosForChannel yt chanId =
          Some (concat (map pageIdentifiers ds), videoRequests chanId None rs))"
proof -
  assume a: "videoPagesFrom yt chanId None rs"
  have ids: "concat (map responseVideoIds (map Resolved ds @ [Rejected])) =
               concat (map pageIdentifiers ds)"
    by (simp add: comp_def)
  from fetchAllVideos_loop_pages [OF a, of "[]" "[]"] ids
  show ?thesis by (auto simp: fetchAllVideosForChannel_def length_videoRequests)
qed

theorem fetchAllVideosForChannel_pages_witness:
  "videoPagesFrom sampleYoutube ''UC3'' None
     [Resolved (searchPage [videoHit ''a1'', channelHit ''UC3'', videoHit ''a2''] (Some ''p2'')),
      Resolved (searchPage [videoHit ''a3'', videoHit [], videoHit ''a4''] (Some ''p3'')),
      Resolved (searchPage [videoHit ''a5'', videoHit ''a6''] None)] \<and>
   fetchAllVideosForChannel sampleYoutube ''UC3'' =
     Some ([''a1'', ''a2'', ''a3'', ''a4'', ''a5'', ''a6''],
           [SearchList (VideoQuery ''UC3'' None),
            SearchList (VideoQuery ''UC3'' (Some ''p2'')),
            SearchList (VideoQuery ''UC3'' (Some ''p3''))]) \<and>
   videoPagesFrom sampleYoutube ''UC4'' None
     (map Resolved [searchPage [videoHit ''b1'', videoHit ''b2''] (Some ''p2''),
                    searchPage [videoHit ''b3'', videoHit ''b4''] (Some ''p3'')] @ [Rejected]) \<and>
   fetchAllVideosForChannel sampleYoutube ''UC4'' =
     Some ([''b1'', ''b2'', ''b3'', ''b4''],
           [SearchList (VideoQuery ''UC4'' None),
            SearchList (VideoQuery ''UC4'' (Some ''p2'')),
            SearchList (VideoQuery ''UC4'' (Some ''p3''))])"
proof -
  have p1: "videoPagesFrom sampleYoutube ''UC3'' None
     [Resolved (searchPage [videoHit ''a1'', channelHit ''UC3'', videoHit ''a2''] (Some ''p2'')),
      Resolved (searchPage [videoHit ''a3'', videoHit [], videoHit ''a4''] (Some ''p3'')),
      Resolved (searchPage [videoHit ''a5'', videoHit ''a6''] None)]"
    by (simp add: sampleYoutube_def sampleSearch_def searchPage_def)
  have p2: "videoPagesFrom sampleYoutube ''UC4'' None
     (map Resolved [searchPage [videoHit ''b1'', videoHit ''b2''] (Some ''p2''),
                    searchPage [videoHit ''b3'', videoHit ''b4''] (Some ''p3'')] @ [Rejected])"
    by (simp add: sampleYoutube_def sampleSearch_def searchPage_def)
  from p1 p2
    fetchAllVideosForChannel_pages [OF p1, of "[]"]
    fetchAllVideosForChannel_pages
      [OF p2, of "[searchPage [videoHit ''b1'', videoHit ''b2''] (Some ''p2''),
                   searchPage [videoHit ''b3'', videoHit ''b4''] (Some ''p3'')]"]
  show ?thesis
    by (simp add: searchPage_def pageIdentifiers_def videoHit_def channelHit_def)
qed

section \<open>Comment Fetcher\<close>

lemma fetchVideoComments_loop_bound:
  assumes "fetchVideoComments_loop yt vidId acc tok sent = Some res"
    and "length acc \<le> 100"
  shows "length (fst res) \<le> 100"
proof -
  have "length acc \<le> 100 \<longrightarrow> length (fst res) \<le> 100"
    by (rule fetchVideoComments_loop.raw_induct
          [where P = "\<lambda>yt vidId acc tok sent res. length acc \<le> 100 \<longrightarrow> length (fst res) \<le> 100",
           OF _ assms(1)])
       (auto split: response.splits sum.splits if_splits)
  with assms(2) show ?thesis by simp
qed

lemma fetchVideoComments_loop_first_pages:
  "firstCommentPages yt vidId tok rs \<Longrightarrow> length acc \<le> 100 \<Longrightarrow>
   \<not> truthy (threadToken (last rs)) \<or> 100 \<le> length (acc @ concat (map responseComments rs)) \<Longrightarrow>
   \<exists>calls. fetchVideoComments_loop yt vidId acc tok sent =
             Some (take 100 (acc @ concat (map responseComments rs)), sent @ calls) \<and>
           length calls \<le> length rs"
proof (induction rs arbitrary: acc tok sent)
  case Nil
  then show ?case by simp
next
  case (Cons r rs)
  from Cons.prems(1) have here: "commentThreads_list yt vidId tok = r"
    and more: "rs = [] \<or> truthy (threadToken r) \<and> firstCommentPages yt vidId (threadToken r) rs"
    by simp_all
  show ?case
  proof (cases "truthy (threadToken r) \<and> length (acc @ responseComments r) < 100")
    case False
    have "fetchVideoComments_loop yt vidId acc tok sent =
            Some (take 100 (acc @ responseComments r), sent @ [CommentThreadsList vidId tok])"
    proof (cases r)
      case Rejected
      with here Cons.prems(2) show ?thesis
        by (subst fetchVideoComments_loop.simps) simp
    next
      case (Resolved data)
      with here False Cons.prems(2) show ?thesis
        by (subst fetchVideoComments_loop.simps) (auto split: sum.splits)
    qed
    moreover have "take 100 (acc @ responseComments r) =
        take 100 (acc @ concat (map responseComments (r # rs)))"
    proof (cases "length (acc @ responseComments r) < 100")
      case True
      with False more have "rs = []" by auto
      then show ?thesis by simp
    next
      case False
      then show ?thesis by simp
    qed
    ultimately show ?thesis by simp
  next
    case True
    then obtain data cs where r: "r = Resolved data" "pageComments data = Inr cs"
      "truthy (CommentThreadListResponse.nextPageToken data)" "length (acc @ cs) < 100"
      by (cases r) (auto split: sum.splits)
    have rs: "rs \<noteq> []"
    proof
      assume "rs = []"
      with Cons.prems(3) True r show False by simp
    qed
    with more r have chain: "firstCommentPages yt vidId (CommentThreadListResponse.nextPageToken data) rs"
      by simp
    from r(4) have small: "length (acc @ cs) \<le> 100" by simp
    from Cons.prems(3) rs r
    have fin: "\<not> truthy (threadToken (last rs)) \<or>
        100 \<le> length ((acc @ cs) @ concat (map responseComments rs))"
      by simp
    from Cons.IH [OF chain small fin, of "sent @ [CommentThreadsList vidId tok]"]
    obtain calls where
      "fetchVideoComments_loop yt vidId (acc @ cs)
         (CommentThreadListResponse.nextPageToken data) (sent @ [CommentThreadsList vidId tok]) =
       Some (take 100 ((acc @ cs) @ concat (map responseComments rs)),
             (sent @ [CommentThreadsList vidId tok]) @ calls)"
      "length calls \<le> length rs"
      by blast
    with here r show ?thesis
      by (subst fetchVideoComments_loop.simps) simp
  qed
qed

lemma mapComments_replicate:
  "toYouTubeComment item = Inr c \<Longrightarrow> mapComments (replicate n item) = Inr (replicate n c)"
  by (induction n) auto

text \<open>
  C3: \<open>fetchVideoComments\<close> returns at most 100 comments. A page that brings the
  accumulated list to 100 or more ends the loop at once: the result is the
  first 100 of the accumulated list and the page's request is the last one
  sent; this holds from any accumulated list, the empty one of a first page
  included. A request that fails ends the loop with the list accumulated so
  far. Whenever the pagination comes, after finitely many pages, to a page
  without token, to a failure or to 100 comments, the function returns, with
  the first 100 comments of these pages, after at most one request per page.
\<close>

theorem fetchVideoComments_cap:
  "(fetchVideoComments yt vidId = Some (cs, calls) \<longrightarrow> length cs \<le> 100) \<and>
   (commentThreads_list yt vidId tok = Resolved data \<and> pageComments data = Inr page \<and>
    100 \<le> length (acc @ page) \<longrightarrow>
      fetchVideoComments_loop yt vidId acc tok sent =
        Some (take 100 (acc @ page), sent @ [CommentThreadsList vidId tok]) \<and>
      length (take 100 (acc @ page)) = 100) \<and>
   (commentThreads_list yt vidId tok = Rejected \<longrightarrow>
      fetchVideoComments_loop yt vidId acc tok sent =
        Some (acc, sent @ [CommentThreadsList vidId tok])) \<and>
   (firstCommentPages yt vidId None rs \<and>
    (\<not> truthy (threadToken (last rs)) \<or>
     100 \<le> length (concat (map responseComments rs))) \<longrightarrow>
      (\<exists>sent'. fetchVideoComments yt vidId =
                 Some (take 100 (concat (map responseComments rs)), sent') \<and>
               length sent' \<le> length rs))"
proof (intro conjI impI)
  assume "fetchVideoComments yt vidId = Some (cs, calls)"
  then show "length cs \<le> 100"
    using fetchVideoComments_loop_bound [of yt vidId "[]" None "[]" "(cs, calls)"]
    by (simp add: fetchVideoComments_def)
next
  assume a: "commentThreads_list yt vidId tok = Resolved data \<and> pageComments data = Inr page \<and>
    100 \<le> length (acc @ page)"
  then show "fetchVideoComments_loop yt vidId acc tok sent =
        Some (take 100 (acc @ page), sent @ [CommentThreadsList vidId tok])"
    by (subst fetchVideoComments_loop.simps) simp
  from a have "100 \<le> length (acc @ page)" by simp
  then show "length (take 100 (acc @ page)) = 100"
    by (simp only: length_take min_absorb2)
next
  assume "commentThreads_list yt vidId tok = Rejected"
  then show "fetchVideoComments_loop yt vidId acc tok sent =
        Some (acc, sent @ [CommentThreadsList vidId tok])"
    by (subst fetchVideoComments_loop.simps) simp
next
  assume a: "firstCommentPages yt vidId None rs \<and>
    (\<not> truthy (threadToken (last rs)) \<or>
     100 \<le> length (concat (map responseComments rs)))"
  from fetchVideoComments_loop_first_pages [OF conjunct1 [OF a], of "[]" "[]"] conjunct2 [OF a]
  show "\<exists>sent'. fetchVideoComments yt vidId =
                 Some (take 100 (concat (map responseComments rs)), sent') \<and>
               length sent' \<le> length rs"
    by (simp add: fetchVideoComments_def)
qed

lemma sampleThread_comment: "toYouTubeComment sampleThread = Inr sampleComment"
  by (simp add: toYouTubeComment_def sampleThread_def sampleComment_def)

theorem fetchVideoComments_cap_witness:
  "fetchVideoComments sampleYoutube ''v1'' =
     Some ([sampleComment], [CommentThreadsList ''v1'' None]) \<and>
   length [sampleComment] \<le> 100 \<and>
   commentThreads_list sampleYoutube ''busy'' None =
     Resolved (threadPage (replicate 100 sampleThread) (Some ''c2'')) \<and>
   pageComments (threadPage (replicate 100 sampleThread) (Some ''c2'')) =
     Inr (replicate 100 sampleComment) \<and>
   100 \<le> length ([] @ replicate 100 sampleComment) \<and>
   fetchVideoComments_loop sampleYoutube ''busy'' [] None [] =
     Some (replicate 100 sampleComment, [CommentThreadsList ''busy'' None]) \<and>
   commentThreads_list sampleYoutube ''v2'' None = Rejected \<and>
   fetchVideoComments_loop sampleYoutube ''v2'' [sampleComment] None [] =
     Some ([sampleComment], [CommentThreadsList ''v2'' None]) \<and>
   firstCommentPages sampleYoutube ''v1'' None [Resolved (threadPage [sampleThread] None)] \<and>
   \<not> truthy (threadToken (last [Resolved (threadPage [sampleThread] None)])) \<and>
   take 100 (concat (map responseComments [Resolved (threadPage [sampleThread] None)])) =
     [sampleComment]"
proof -
  have one: "pageComments (threadPage [sampleThread] None) = Inr [sampleComment]"
    by (simp add: pageComments_def threadPage_def sampleThread_comment)
  have v1: "commentThreads_list sampleYoutube ''v1'' None = Resolved (threadPage [sampleThread] None)"
    by (simp add: sampleYoutube_def sampleThreads_def)
  have tok: "CommentThreadListResponse.nextPageToken (threadPage [sampleThread] None) = None"
    by (simp add: threadPage_def)
  have run: "fetchVideoComments sampleYoutube ''v1'' =
      Some ([sampleComment], [CommentThreadsList ''v1'' None])"
    unfolding fetchVideoComments_def
    by (subst fetchVideoComments_loop.simps) (simp add: v1 one tok)
  have busy: "commentThreads_list sampleYoutube ''busy'' None =
      Resolved (threadPage (replicate 100 sampleThread) (Some ''c2''))"
    by (simp add: sampleYoutube_def sampleThreads_def)
  have full: "pageComments (threadPage (replicate 100 sampleThread) (Some ''c2'')) =
      Inr (replicate 100 sampleComment)"
    by (simp add: pageComments_def threadPage_def mapComments_replicate [OF sampleThread_comment])
  have cap: "100 \<le> length ([] @ replicate 100 sampleComment)"
    by simp
  have v2: "commentThreads_list sampleYoutube ''v2'' None = Rejected"
    by (simp add: sampleYoutube_def sampleThreads_def)
  have pages: "firstCommentPages sampleYoutube ''v1'' None [Resolved (threadPage [sampleThread] None)]"
    "\<not> truthy (threadToken (last [Resolved (threadPage [sampleThread] None)]))"
    by (simp_all add: v1 one tok)
  from run one tok busy full cap v2 pages
    fetchVideoComments_cap
      [where yt = sampleYoutube and vidId = "''v1''" and cs = "[sampleComment]"
         and calls = "[CommentThreadsList ''v1'' None]"
         and rs = "[Resolved (threadPage [sampleThread] None)]"]
    fetchVideoComments_cap
      [where yt = sampleYoutube and vidId = "''busy''" and tok = None
         and data = "threadPage (replicate 100 sampleThread) (Some ''c2'')"
         and page = "replicate 100 sampleComment" and acc = "[]" and sent = "[]"]
    fetchVideoComments_cap
      [where yt = sampleYoutube and vidId = "''v2''" and tok = None
         and acc = "[sampleComment]" and sent = "[]"]
  show ?thesis by simp
qed

section \<open>Counters of a new video row\<close>

text \<open>
  C5, as the code has it, for the step of \<open>scrapeVideos\<close> that checks for a
  stored row and creates one. Take a video that is not yet stored for the user
  and whose payload has a snippet with thumbnails of which the selector can
  return one. If its statistics object is present, the row is created without
  a throw whichever of the four counter fields are absent or empty; the row's
  counters are the parsed fields, and each absent or empty one is stored as 0.
  If a video that is not yet stored lacks the statistics object, or the
  snippet, or the thumbnails, or every thumbnail variant, the step throws a
  TypeError and writes nothing. For a video that is already stored for the
  user the payload is not read: the step returns the stored row's identifier,
  throws nothing and writes nothing.
\<close>

theorem absent_counters_default_to_zero:
  "(YouTubeVideo.snippet video = Some sn \<and> thumbnails sn = Some th \<and>
    getBestThumbnail th = Inr thumb \<and> YouTubeVideo.statistics video = Some st \<and>
    existingVideo (YouTubeVideo.videoId video) uid w = [] \<longrightarrow>
      (\<exists>row. upsertVideo uid chanId video newVideos w =
                (Inr (Video.id' row, newVideos @ [row]),
                 w\<lparr> Videos := Videos w @ [row], nextId := Suc (nextId w),
                    clockReads := Suc (clockReads w) \<rparr>) \<and>
             Video.viewCount row = parseInt (or_else (VideoStatistics.viewCount st) ''0'') \<and>
             Video.likeCount row = parseInt (or_else (VideoStatistics.likeCount st) ''0'') \<and>
             Video.dislikeCount row = parseInt (or_else (VideoStatistics.dislikeCount st) ''0'') \<and>
             Video.commentCount row = parseInt (or_else (VideoStatistics.commentCount st) ''0'') \<and>
             (\<not> truthy (VideoStatistics.viewCount st) \<longrightarrow> Video.viewCount row = Num 0) \<and>
             (\<not> truthy (VideoStatistics.likeCount st) \<longrightarrow> Video.likeCount row = Num 0) \<and>
             (\<not> truthy (VideoStatistics.dislikeCount st) \<longrightarrow> Video.dislikeCount row = Num 0) \<and>
             (\<not> truthy (VideoStatistics.commentCount st) \<longrightarrow> Video.commentCount row = Num 0))) \<and>
   (YouTubeVideo.statistics video = None \<and>
    existingVideo (YouTubeVideo.videoId video) uid w = [] \<longrightarrow>
      upsertVideo uid chanId video newVideos w = (Inl TypeError, w)) \<and>
   (existingVideo (YouTubeVideo.videoId video) uid w = [] \<and>
    (YouTubeVideo.snippet video = None \<or>
     YouTubeVideo.snippet video = Some sn \<and> thumbnails sn = None \<or>
     YouTubeVideo.snippet video = Some sn \<and> thumbnails sn = Some th \<and>
       getBestThumbnail th = Inl e) \<longrightarrow>
      upsertVideo uid chanId video newVideos w = (Inl TypeError, w)) \<and>
   (existingVideo (YouTubeVideo.videoId video) uid w = stored # others \<longrightarrow>
      upsertVideo uid chanId video newVideos w = (Inr (Video.id' stored, newVideos), w))"
proof (intro conjI impI)
  assume a: "YouTubeVideo.snippet video = Some sn \<and> thumbnails sn = Some th \<and>
    getBestThumbnail th = Inr thumb \<and> YouTubeVideo.statistics video = Some st \<and>
    existingVideo (YouTubeVideo.videoId video) uid w = []"
  then obtain nv where nv: "newVideoOf uid chanId video = Inr nv"
    and c: "NewVideo.viewCount nv = parseInt (or_else (VideoStatistics.viewCount st) ''0'')"
      "NewVideo.likeCount nv = parseInt (or_else (VideoStatistics.likeCount st) ''0'')"
      "NewVideo.dislikeCount nv = parseInt (or_else (VideoStatistics.dislikeCount st) ''0'')"
      "NewVideo.commentCount nv = parseInt (or_else (VideoStatistics.commentCount st) ''0'')"
    by (simp add: newVideoOf_def)
  let ?row = "fst (insertVideo nv w)"
  have "upsertVideo uid chanId video newVideos w =
          (Inr (Video.id' ?row, newVideos @ [?row]),
           w\<lparr> Videos := Videos w @ [?row], nextId := Suc (nextId w),
              clockReads := Suc (clockReads w) \<rparr>)"
    using a nv by (simp add: upsertVideo_def insertVideo_def Let_def)
  moreover have "Video.viewCount ?row = NewVideo.viewCount nv"
    "Video.likeCount ?row = NewVideo.likeCount nv"
    "Video.dislikeCount ?row = NewVideo.dislikeCount nv"
    "Video.commentCount ?row = NewVideo.commentCount nv"
    by (simp_all add: insertVideo_def Let_def)
  ultimately show "\<exists>row. upsertVideo uid chanId video newVideos w =
                (Inr (Video.id' row, newVideos @ [row]),
                 w\<lparr> Videos := Videos w @ [row], nextId := Suc (nextId w),
                    clockReads := Suc (clockReads w) \<rparr>) \<and>
             Video.viewCount row = parseInt (or_else (VideoStatistics.viewCount st) ''0'') \<and>
             Video.likeCount row = parseInt (or_else (VideoStatistics.likeCount st) ''0'') \<and>
             Video.dislikeCount row = parseInt (or_else (VideoStatistics.dislikeCount st) ''0'') \<and>
             Video.commentCount row = parseInt (or_else (VideoStatistics.commentCount st) ''0'') \<and>
             (\<not> truthy (VideoStatistics.viewCount st) \<longrightarrow> Video.viewCount row = Num 0) \<and>
             (\<not> truthy (VideoStatistics.likeCount st) \<longrightarrow> Video.likeCount row = Num 0) \<and>
             (\<not> truthy (VideoStatistics.dislikeCount st) \<longrightarrow> Video.dislikeCount row = Num 0) \<and>
             (\<not> truthy (VideoStatistics.commentCount st) \<longrightarrow> Video.commentCount row = Num 0)"
    using c by (intro exI [of _ ?row]) (simp add: or_else_absent parseInt_zero)
next
  assume "YouTubeVideo.statistics video = None \<and>
    existingVideo (YouTubeVideo.videoId video) uid w = []"
  then show "upsertVideo uid chanId video newVideos w = (Inl TypeError, w)"
    by (auto simp: upsertVideo_def newVideoOf_def getBestThumbnail_def
             split: option.splits sum.splits)
next
  assume "existingVideo (YouTubeVideo.videoId video) uid w = [] \<and>
    (YouTubeVideo.snippet video = None \<or>
     YouTubeVideo.snippet video = Some sn \<and> thumbnails sn = None \<or>
     YouTubeVideo.snippet video = Some sn \<and> thumbnails sn = Some th \<and>
       getBestThumbnail th = Inl e)"
  then show "upsertVideo uid chanId video newVideos w = (Inl TypeError, w)"
    by (auto simp: upsertVideo_def newVideoOf_def getBestThumbnail_def
             split: option.splits if_splits)
next
  assume "existingVideo (YouTubeVideo.videoId video) uid w = stored # others"
  then show "upsertVideo uid chanId video newVideos w = (Inr (Video.id' stored, newVideos), w)"
    by (simp add: upsertVideo_def)
qed

theorem absent_counters_default_to_zero_witness:
  "YouTubeVideo.snippet (sampleVideo ''v1'') = Some sampleSnippet \<and>
   thumbnails sampleSnippet = Some sampleThumbnails \<and>
   getBestThumbnail sampleThumbnails = Inr (Some ''https://img.example/m.jpg'') \<and>
   YouTubeVideo.statistics (sampleVideo ''v1'') = Some sampleStatistics \<and>
   existingVideo (YouTubeVideo.videoId (sampleVideo ''v1'')) ''alice'' aliceWorld = [] \<and>
   \<not> truthy (VideoStatistics.likeCount sampleStatistics) \<and>
   \<not> truthy (VideoStatistics.dislikeCount sampleStatistics) \<and>
   map Video.likeCount
     (Videos (snd (upsertVideo ''alice'' ''UC1'' (sampleVideo ''v1'') [] aliceWorld))) = [Num 0] \<and>
   map Video.dislikeCount
     (Videos (snd (upsertVideo ''alice'' ''UC1'' (sampleVideo ''v1'') [] aliceWorld))) = [Num 0] \<and>
   YouTubeVideo.statistics ((sampleVideo ''v1'')\<lparr> YouTubeVideo.statistics := None \<rparr>) = None \<and>
   upsertVideo ''alice'' ''UC1'' ((sampleVideo ''v1'')\<lparr> YouTubeVideo.statistics := None \<rparr>) []
     aliceWorld = (Inl TypeError, aliceWorld) \<and>
   YouTubeVideo.snippet ((sampleVideo ''v1'')\<lparr> YouTubeVideo.snippet := None \<rparr>) = None \<and>
   upsertVideo ''alice'' ''UC1'' ((sampleVideo ''v1'')\<lparr> YouTubeVideo.snippet := None \<rparr>) []
     aliceWorld = (Inl TypeError, aliceWorld) \<and>
   existingVideo (YouTubeVideo.videoId (sampleVideo ''v1'')) ''alice'' sharedWorld =
     storedVideo 1 ''v1'' ''alice'' # [] \<and>
   upsertVideo ''alice'' ''UC1'' ((sampleVideo ''v1'')\<lparr> YouTubeVideo.statistics := None \<rparr>) []
     sharedWorld = (Inr (1, []), sharedWorld)"
proof -
  have h: "YouTubeVideo.snippet (sampleVideo ''v1'') = Some sampleSnippet \<and>
      thumbnails sampleSnippet = Some sampleThumbnails \<and>
      getBestThumbnail sampleThumbnails = Inr (Some ''https://img.example/m.jpg'') \<and>
      YouTubeVideo.statistics (sampleVideo ''v1'') = Some sampleStatistics \<and>
      existingVideo (YouTubeVideo.videoId (sampleVideo ''v1'')) ''alice'' aliceWorld = []"
    by (simp add: sampleVideo_def sampleSnippet_def sampleThumbnails_def getBestThumbnail_def
          existingVideo_def aliceWorld_def emptyWorld_def)
  have t: "\<not> truthy (VideoStatistics.likeCount sampleStatistics)"
    "\<not> truthy (VideoStatistics.dislikeCount sampleStatistics)"
    by (simp_all add: sampleStatistics_def)
  have e: "Videos aliceWorld = []"
    by (simp add: aliceWorld_def emptyWorld_def)
  from h t
    absent_counters_default_to_zero
      [where video = "sampleVideo ''v1''" and sn = sampleSnippet and th = sampleThumbnails
         and thumb = "Some ''https://img.example/m.jpg''" and st = sampleStatistics
         and uid = "''alice''" and w = aliceWorld and chanId = "''UC1''" and newVideos = "[]"]
  obtain row where
    "upsertVideo ''alice'' ''UC1'' (sampleVideo ''v1'') [] aliceWorld =
       (Inr (Video.id' row, [] @ [row]),
        aliceWorld\<lparr> Videos := Videos aliceWorld @ [row], nextId := Suc (nextId aliceWorld),
                     clockReads := Suc (clockReads aliceWorld) \<rparr>)"
    "Video.likeCount row = Num 0" "Video.dislikeCount row = Num 0"
    by blast
  then have z: "map Video.likeCount
        (Videos (snd (upsertVideo ''alice'' ''UC1'' (sampleVideo ''v1'') [] aliceWorld))) = [Num 0]"
    "map Video.dislikeCount
        (Videos (snd (upsertVideo ''alice'' ''UC1'' (sampleVideo ''v1'') [] aliceWorld))) = [Num 0]"
    by (simp_all add: e)
  have n: "YouTubeVideo.statistics ((sampleVideo ''v1'')\<lparr> YouTubeVideo.statistics := None \<rparr>) = None"
    by simp
  have x: "existingVideo
      (YouTubeVideo.videoId ((sampleVideo ''v1'')\<lparr> YouTubeVideo.statistics := None \<rparr>))
      ''alice'' aliceWorld = []"
    by (simp add: existingVideo_def e)
  from n x
    absent_counters_default_to_zero
      [where video = "(sampleVideo ''v1'')\<lparr> YouTubeVideo.statistics := None \<rparr>"
         and uid = "''alice''" and w = aliceWorld and chanId = "''UC1''" and newVideos = "[]"]
  have s: "upsertVideo ''alice'' ''UC1'' ((sampleVideo ''v1'')\<lparr> YouTubeVideo.statistics := None \<rparr>) []
     aliceWorld = (Inl TypeError, aliceWorld)"
    by blast
  have m: "YouTubeVideo.snippet ((sampleVideo ''v1'')\<lparr> YouTubeVideo.snippet := None \<rparr>) = None"
    by simp
  have y: "existingVideo
      (YouTubeVideo.videoId ((sampleVideo ''v1'')\<lparr> YouTubeVideo.snippet := None \<rparr>))
      ''alice'' aliceWorld = []"
    by (simp add: existingVideo_def e)
  from m y
    absent_counters_default_to_zero
      [where video = "(sampleVideo ''v1'')\<lparr> YouTubeVideo.snippet := None \<rparr>"
         and uid = "''alice''" and w = aliceWorld and chanId = "''UC1''" and newVideos = "[]"]
  have p: "upsertVideo ''alice'' ''UC1'' ((sampleVideo ''v1'')\<lparr> YouTubeVideo.snippet := None \<rparr>) []
     aliceWorld = (Inl TypeError, aliceWorld)"
    by blast
  have k: "existingVideo (YouTubeVideo.videoId (sampleVideo ''v1'')) ''alice'' sharedWorld =
      storedVideo 1 ''v1'' ''alice'' # []"
    by (simp add: existingVideo_def sharedWorld_def emptyWorld_def sampleVideo_def storedVideo_def)
  then have k': "existingVideo
      (YouTubeVideo.videoId ((sampleVideo ''v1'')\<lparr> YouTubeVideo.statistics := None \<rparr>))
      ''alice'' sharedWorld = storedVideo 1 ''v1'' ''alice'' # []"
    by simp
  from k'
    absent_counters_default_to_zero
      [where video = "(sampleVideo ''v1'')\<lparr> YouTubeVideo.statistics := None \<rparr>"
         and uid = "''alice''" and w = sharedWorld and chanId = "''UC1''" and newVideos = "[]"
         and stored = "storedVideo 1 ''v1'' ''alice''" and others = "[]"]
  have q: "upsertVideo ''alice'' ''UC1'' ((sampleVideo ''v1'')\<lparr> YouTubeVideo.statistics := None \<rparr>) []
     sharedWorld = (Inr (1, []), sharedWorld)"
    by (simp add: storedVideo_def)
  from h t z n s m p k q show ?thesis
    by (intro conjI) (simp_all only: simp_thms)
qed

text \<open>
  C5 as stated fails: with a payload whose items carry no statistics object the
  run ends in a TypeError.
\<close>

theorem absent_statistics_counterexample:
  "map_option fst (scrapeVideos bareYoutube (Some ''alice'') aliceWorld) = Some (Inl TypeError)"
  by code_simp

section \<open>Statistics Refresher\<close>

lemma send_fields [simp]:
  "Videos (send cs w) = Videos w"
  "YouTubeChannels (send cs w) = YouTubeChannels w"
  "VideoComments (send cs w) = VideoComments w"
  "nextId (send cs w) = nextId w"
  "clockReads (send cs w) = clockReads w"
  "requests (send cs w) = requests w @ cs"
  by (simp_all add: send_def)

lemma updateStatistics_fields [simp]:
  "YouTubeChannels (updateStatistics k st w) = YouTubeChannels w"
  "VideoComments (updateStatistics k st w) = VideoComments w"
  "nextId (updateStatistics k st w) = nextId w"
  "requests (updateStatistics k st w) = requests w"
  by (simp_all add: updateStatistics_def)

lemma updateStatistics_Videos:
  "\<exists>g. Videos (updateStatistics k st w) = map g (Videos w) \<and>
       (\<forall>r. sameButStatistics r (g r) \<and> (Video.videoId r \<noteq> k \<longrightarrow> g r = r))"
  by (rule exI [of _ "\<lambda>r. if Video.videoId r = k
        then r\<lparr> Video.viewCount := parseInt (or_else (VideoStatistics.viewCount st) ''0''),
               Video.likeCount := parseInt (or_else (VideoStatistics.likeCount st) ''0''),
               Video.dislikeCount := parseInt (or_else (VideoStatistics.dislikeCount st) ''0''),
               Video.commentCount := parseInt (or_else (VideoStatistics.commentCount st) ''0''),
               Video.updatedAt := Now (clockReads w) \<rparr>
        else r"])
     (simp add: updateStatistics_def sameButStatistics_def)

lemma sameButStatistics_refl [simp]: "sameButStatistics r r"
  by (simp add: sameButStatistics_def)

lemma sameButStatistics_trans:
  "sameButStatistics a b \<Longrightarrow> sameButStatistics b c \<Longrightarrow> sameButStatistics a c"
  by (simp add: sameButStatistics_def)

lemma refresh_loop_frame:
  "refresh_loop yt vs w = (res, w') \<Longrightarrow>
   YouTubeChannels w' = YouTubeChannels w \<and> VideoComments w' = VideoComments w \<and>
   nextId w' = nextId w \<and>
   (\<exists>f. Videos w' = map f (Videos w) \<and>
        (\<forall>r. sameButStatistics r (f r) \<and>
             (fetchVideoDetails yt [Video.videoId r] = [] \<longrightarrow> f r = r) \<and>
             (Video.videoId r \<notin> Video.videoId ` set vs \<longrightarrow> f r = r)))"
proof (induction vs arbitrary: w)
  case Nil
  then have "w' = w" by simp
  then show ?case by (auto intro: exI [of _ "\<lambda>r. r"])
next
  case (Cons video rest)
  let ?k = "Video.videoId video"
  let ?w1 = "send (fetchVideoDetails_calls [?k]) w"
  show ?case
  proof (cases "fetchVideoDetails yt [?k]")
    case Nil
    with Cons.prems have "refresh_loop yt rest ?w1 = (res, w')" by simp
    from Cons.IH [OF this] show ?thesis by auto
  next
    case (Cons updatedVideo ds)
    note details = this
    show ?thesis
    proof (cases "YouTubeVideo.statistics updatedVideo")
      case None
      with details Cons.prems have "w' = ?w1" by simp
      then show ?thesis by (auto intro: exI [of _ "\<lambda>r. r"])
    next
      case (Some st)
      let ?w2 = "updateStatistics ?k st ?w1"
      from Some details Cons.prems have "refresh_loop yt rest ?w2 = (res, w')" by simp
      from Cons.IH [OF this] obtain f where
        fr: "YouTubeChannels w' = YouTubeChannels w" "VideoComments w' = VideoComments w"
          "nextId w' = nextId w"
        and f: "Videos w' = map f (Videos ?w2)"
          "\<And>r. sameButStatistics r (f r)"
          "\<And>r. fetchVideoDetails yt [Video.videoId r] = [] \<Longrightarrow> f r = r"
          "\<And>r. Video.videoId r \<notin> Video.videoId ` set rest \<Longrightarrow> f r = r"
        by auto
      from updateStatistics_Videos [of ?k st ?w1] obtain g where
        g: "Videos ?w2 = map g (Videos w)"
          "\<And>r. sameButStatistics r (g r)"
          "\<And>r. Video.videoId r \<noteq> ?k \<Longrightarrow> g r = r"
        by auto
      have "Videos w' = map (f \<circ> g) (Videos w)"
        using f(1) g(1) by simp
      moreover have "sameButStatistics r ((f \<circ> g) r)" for r
        using sameButStatistics_trans [OF g(2) f(2)] by simp
      moreover have "(f \<circ> g) r = r" if "fetchVideoDetails yt [Video.videoId r] = []" for r
      proof -
        from that details have "Video.videoId r \<noteq> ?k" by auto
        with g(3) f(3) that show ?thesis by simp
      qed
      moreover have "(f \<circ> g) r = r" if "Video.videoId r \<notin> Video.videoId ` set (video # rest)" for r
        using that g(3) [of r] f(4) [of r] by simp
      ultimately show ?thesis using fr by blast
    qed
  qed
qed

lemma refresh_loop_error:
  "refresh_loop yt vs w = (Inl e, w') \<Longrightarrow>
   e = TypeError \<and> (\<exists>video \<in> set vs. fetchVideoDetails yt [Video.videoId video] \<noteq> [])"
proof (induction vs arbitrary: w)
  case Nil
  then show ?case by simp
next
  case (Cons video rest)
  then show ?case
    by (cases "fetchVideoDetails yt [Video.videoId video]")
       (auto split: option.splits)
qed

text \<open>
  C10: when the detail fetch for an upstream identifier gives no record, every
  stored row with that identifier is, after \<open>updateVideoStatistics\<close>, still in
  its place and equal to what it was; the loop passes over such a video and goes
  on with the remaining ones; and an exception reaches the caller only from a
  video that does have a detail record.
\<close>

theorem refresh_skips_missing_video:
  "fetchVideoDetails yt [k] = [] \<Longrightarrow>
     list_all2 (\<lambda>row row'. Video.videoId row = k \<longrightarrow> row' = row)
       (Videos w) (Videos (snd (updateVideoStatistics yt auth w))) \<and>
     (Video.videoId video = k \<longrightarrow>
        refresh_loop yt (video # rest) w =
          refresh_loop yt rest (send (fetchVideoDetails_calls [k]) w)) \<and>
     (truthy auth \<and> fst (updateVideoStatistics yt auth w) = Inl e \<longrightarrow>
        (\<exists>row \<in> set (Videos w). Video.userId row = the auth \<and>
           fetchVideoDetails yt [Video.videoId row] \<noteq> []))"
proof (intro conjI impI)
  assume k: "fetchVideoDetails yt [k] = []"
  show "list_all2 (\<lambda>row row'. Video.videoId row = k \<longrightarrow> row' = row)
       (Videos w) (Videos (snd (updateVideoStatistics yt auth w)))"
  proof (cases "truthy auth")
    case False
    then show ?thesis
      by (simp add: updateVideoStatistics_def list_all2_same)
  next
    case True
    obtain res w' where
      run: "refresh_loop yt (filter (\<lambda>r. Video.userId r = the auth) (Videos w)) w = (res, w')"
      by (cases "refresh_loop yt (filter (\<lambda>r. Video.userId r = the auth) (Videos w)) w")
    from refresh_loop_frame [OF run] obtain f where
      "Videos w' = map f (Videos w)"
      "\<And>r. fetchVideoDetails yt [Video.videoId r] = [] \<Longrightarrow> f r = r"
      by auto
    with k True run show ?thesis
      by (simp add: updateVideoStatistics_def list_all2_map2 list_all2_same)
  qed
next
  assume "fetchVideoDetails yt [k] = []" and "Video.videoId video = k"
  then show "refresh_loop yt (video # rest) w =
          refresh_loop yt rest (send (fetchVideoDetails_calls [k]) w)"
    by simp
next
  assume "truthy auth \<and> fst (updateVideoStatistics yt auth w) = Inl e"
  then have "fst (refresh_loop yt (filter (\<lambda>r. Video.userId r = the auth) (Videos w)) w) = Inl e"
    by (auto simp: updateVideoStatistics_def)
  then obtain w' where
    "refresh_loop yt (filter (\<lambda>r. Video.userId r = the auth) (Videos w)) w = (Inl e, w')"
    by (cases "refresh_loop yt (filter (\<lambda>r. Video.userId r = the auth) (Videos w)) w") simp
  from refresh_loop_error [OF this]
  show "\<exists>row \<in> set (Videos w). Video.userId row = the auth \<and>
           fetchVideoDetails yt [Video.videoId row] \<noteq> []"
    by auto
qed

theorem refresh_skips_missing_video_witness:
  "fetchVideoDetails sampleYoutube [''gone''] = [] \<and>
   Videos (snd (updateVideoStatistics sampleYoutube (Some ''alice'') goneWorld)) ! 0 =
     storedVideo 1 ''gone'' ''alice'' \<and>
   Video.viewCount
     (Videos (snd (updateVideoStatistics sampleYoutube (Some ''alice'') goneWorld)) ! 1) = Num 10 \<and>
   fst (updateVideoStatistics sampleYoutube (Some ''alice'') goneWorld) = Inr () \<and>
   Video.videoId (storedVideo 1 ''gone'' ''alice'') = ''gone'' \<and>
   refresh_loop sampleYoutube
     (storedVideo 1 ''gone'' ''alice'' # [storedVideo 2 ''v1'' ''alice'']) goneWorld =
     refresh_loop sampleYoutube [storedVideo 2 ''v1'' ''alice'']
       (send (fetchVideoDetails_calls [''gone'']) goneWorld) \<and>
   fetchVideoDetails bareYoutube [''gone''] = [] \<and>
   truthy (Some ''alice'') \<and>
   fst (updateVideoStatistics bareYoutube (Some ''alice'') goneWorld) = Inl TypeError \<and>
   Videos (snd (updateVideoStatistics bareYoutube (Some ''alice'') goneWorld)) ! 0 =
     storedVideo 1 ''gone'' ''alice''"
proof -
  have g: "fetchVideoDetails sampleYoutube [''gone''] = []"
    by (simp add: fetchVideoDetails_def sampleYoutube_def sampleVideos_def)
  have b: "fetchVideoDetails bareYoutube [''gone''] = []"
    by (simp add: fetchVideoDetails_def bareYoutube_def bareVideos_def)
  have v: "Videos goneWorld = [storedVideo 1 ''gone'' ''alice'', storedVideo 2 ''v1'' ''alice'']"
    by (simp add: goneWorld_def emptyWorld_def)
  have i: "Video.videoId (storedVideo 1 ''gone'' ''alice'') = ''gone''"
    by (simp add: storedVideo_def)
  have c: "Video.viewCount
     (Videos (snd (updateVideoStatistics sampleYoutube (Some ''alice'') goneWorld)) ! 1) = Num 10"
    by code_simp
  have r: "fst (updateVideoStatistics sampleYoutube (Some ''alice'') goneWorld) = Inr ()"
    by code_simp
  have x: "fst (updateVideoStatistics bareYoutube (Some ''alice'') goneWorld) = Inl TypeError"
    by code_simp
  have "Videos (snd (updateVideoStatistics sampleYoutube (Some ''alice'') goneWorld)) ! 0 =
     storedVideo 1 ''gone'' ''alice''"
    using list_all2_nthD
      [OF conjunct1
        [OF refresh_skips_missing_video
          [OF g, of goneWorld "Some ''alice''" "storedVideo 1 ''gone'' ''alice''"
             "[storedVideo 2 ''v1'' ''alice'']" TypeError]], of 0]
    by (simp add: v storedVideo_def)
  moreover have "Videos (snd (updateVideoStatistics bareYoutube (Some ''alice'') goneWorld)) ! 0 =
     storedVideo 1 ''gone'' ''alice''"
    using list_all2_nthD
      [OF conjunct1
        [OF refresh_skips_missing_video
          [OF b, of goneWorld "Some ''alice''" "storedVideo 1 ''gone'' ''alice''"
             "[storedVideo 2 ''v1'' ''alice'']" TypeError]], of 0]
    by (simp add: v storedVideo_def)
  moreover have "refresh_loop sampleYoutube
     (storedVideo 1 ''gone'' ''alice'' # [storedVideo 2 ''v1'' ''alice'']) goneWorld =
     refresh_loop sampleYoutube [storedVideo 2 ''v1'' ''alice'']
       (send (fetchVideoDetails_calls [''gone'']) goneWorld)"
    using refresh_skips_missing_video
          [OF g, of goneWorld "Some ''alice''" "storedVideo 1 ''gone'' ''alice''"
             "[storedVideo 2 ''v1'' ''alice'']" TypeError] i
    by blast
  ultimately show ?thesis using g b i c r x by simp
qed

section \<open>The refresh and the rows of other users\<close>

text \<open>
  C1: the refresh writes only the four counters and \<^verbatim>\<open>updatedAt\<close>, and leaves the
  other tables alone (lemma \<open>refresh_loop_frame\<close>). Its update, however, selects
  rows by upstream identifier alone: when Alice refreshes and Bob has stored the
  same upstream video, Bob's row is overwritten as well.
\<close>

theorem refresh_overwrites_other_users_row:
  "Video.userId (Videos sharedWorld ! 1) = ''bob'' \<and>
   Video.viewCount (Videos sharedWorld ! 1) = Num 1 \<and>
   Video.updatedAt (Videos sharedWorld ! 1) = Now 0 \<and>
   fst (updateVideoStatistics sampleYoutube (Some ''alice'') sharedWorld) = Inr () \<and>
   Video.userId
     (Videos (snd (updateVideoStatistics sampleYoutube (Some ''alice'') sharedWorld)) ! 1) = ''bob'' \<and>
   Video.viewCount
     (Videos (snd (updateVideoStatistics sampleYoutube (Some ''alice'') sharedWorld)) ! 1) = Num 10 \<and>
   Video.updatedAt
     (Videos (snd (updateVideoStatistics sampleYoutube (Some ''alice'') sharedWorld)) ! 1) = Now 1"
  by code_simp

section \<open>What the steps of the ingestion change\<close>

lemma insertVideo_fields [simp]:
  "Videos (snd (insertVideo nv w)) = Videos w @ [fst (insertVideo nv w)]"
  "YouTubeChannels (snd (insertVideo nv w)) = YouTubeChannels w"
  "VideoComments (snd (insertVideo nv w)) = VideoComments w"
  "requests (snd (insertVideo nv w)) = requests w"
  "Video.videoId (fst (insertVideo nv w)) = NewVideo.videoId nv"
  "Video.userId (fst (insertVideo nv w)) = NewVideo.userId nv"
  by (simp_all add: insertVideo_def Let_def)

lemma insertComment_fields [simp]:
  "Videos (snd (insertComment nc w)) = Videos w"
  "YouTubeChannels (snd (insertComment nc w)) = YouTubeChannels w"
  "VideoComments (snd (insertComment nc w)) = VideoComments w @ [fst (insertComment nc w)]"
  "requests (snd (insertComment nc w)) = requests w"
  "commentContent (fst (insertComment nc w)) = nc"
  by (simp_all add: insertComment_def Let_def commentContent_def)

lemma updateChannelId_fields [simp]:
  "Videos (updateChannelId rid uid c w) = Videos w"
  "VideoComments (updateChannelId rid uid c w) = VideoComments w"
  "requests (updateChannelId rid uid c w) = requests w"
  by (simp_all add: updateChannelId_def)

lemma insertComments_frame:
  "insertComments rowId uid cs w = (r, w') \<Longrightarrow>
   Videos w' = Videos w \<and> YouTubeChannels w' = YouTubeChannels w \<and> requests w' = requests w"
proof (induction cs arbitrary: w)
  case Nil
  then show ?case by simp
next
  case (Cons c cs)
  then show ?case
    by (cases "newCommentOf rowId uid c") (auto dest: Cons.IH)
qed

lemma sameNewComments_refl:
  "VideoComments wa' = VideoComments wa \<Longrightarrow> VideoComments wb' = VideoComments wb \<Longrightarrow>
   sameNewComments wa wa' wb wb'"
  by (simp add: sameNewComments_def)

lemma sameNewComments_trans:
  assumes "sameNewComments wa wa1 wb wb1" and "sameNewComments wa1 wa2 wb1 wb2"
  shows "sameNewComments wa wa2 wb wb2"
proof -
  from assms(1) obtain ca cb where
    1: "VideoComments wa1 = VideoComments wa @ ca" "VideoComments wb1 = VideoComments wb @ cb"
      "map commentContent ca = map commentContent cb"
    by (auto simp: sameNewComments_def)
  from assms(2) obtain da db where
    2: "VideoComments wa2 = VideoComments wa1 @ da" "VideoComments wb2 = VideoComments wb1 @ db"
      "map commentContent da = map commentContent db"
    by (auto simp: sameNewComments_def)
  show ?thesis
    unfolding sameNewComments_def
    by (rule exI [of _ "ca @ da"], rule exI [of _ "cb @ db"]) (simp add: 1 2)
qed

lemma sameNewComments_cong:
  "sameNewComments wa wa' wb wb' \<Longrightarrow> VideoComments xa = VideoComments wa \<Longrightarrow>
   VideoComments xb = VideoComments wb \<Longrightarrow> sameNewComments xa wa' xb wb'"
  by (simp add: sameNewComments_def)

lemma insertComments_rerun:
  "insertComments rowId uid cs wa = (ra, wa') \<Longrightarrow>
   insertComments rowId uid cs wb = (rb, wb') \<Longrightarrow>
   rb = ra \<and> sameNewComments wa wa' wb wb'"
proof (induction cs arbitrary: wa wb)
  case Nil
  then show ?case by (simp add: sameNewComments_refl)
next
  case (Cons c cs)
  show ?case
  proof (cases "newCommentOf rowId uid c")
    case (Inl e)
    with Cons.prems show ?thesis by (simp add: sameNewComments_refl)
  next
    case (Inr nc)
    with Cons.prems have
      a: "insertComments rowId uid cs (snd (insertComment nc wa)) = (ra, wa')" and
      b: "insertComments rowId uid cs (snd (insertComment nc wb)) = (rb, wb')"
      by simp_all
    from Cons.IH [OF a b] have r: "rb = ra"
      and s: "sameNewComments (snd (insertComment nc wa)) wa' (snd (insertComment nc wb)) wb'"
      by simp_all
    have "sameNewComments wa (snd (insertComment nc wa)) wb (snd (insertComment nc wb))"
      unfolding sameNewComments_def
      by (rule exI [of _ "[fst (insertComment nc wa)]"],
          rule exI [of _ "[fst (insertComment nc wb)]"]) simp
    from sameNewComments_trans [OF this s] r show ?thesis by simp
  qed
qed

lemma channelSearches_append [simp]:
  "channelSearches (xs @ ys) = channelSearches xs @ channelSearches ys"
  by (induction xs rule: channelSearches.induct) auto

lemma fetchAllVideos_loop_searches:
  assumes "fetchAllVideos_loop yt chanId acc tok sent = Some res"
  shows "channelSearches (snd res) = channelSearches sent"
  by (rule fetchAllVideos_loop.raw_induct
        [where P = "\<lambda>yt chanId acc tok sent res. channelSearches (snd res) = channelSearches sent",
         OF _ assms])
     (auto split: response.splits if_splits)

lemma fetchAllVideosForChannel_searches:
  "fetchAllVideosForChannel yt chanId = Some (ids, calls) \<Longrightarrow> channelSearches calls = []"
  using fetchAllVideos_loop_searches [of yt chanId "[]" None "[]" "(ids, calls)"]
  by (simp add: fetchAllVideosForChannel_def)

lemma fetchVideoComments_loop_searches:
  assumes "fetchVideoComments_loop yt vidId acc tok sent = Some res"
  shows "channelSearches (snd res) = channelSearches sent"
  by (rule fetchVideoComments_loop.raw_induct
        [where P = "\<lambda>yt vidId acc tok sent res. channelSearches (snd res) = channelSearches sent",
         OF _ assms])
     (auto split: response.splits sum.splits if_splits)

lemma fetchVideoComments_searches:
  "fetchVideoComments yt vidId = Some (cs, calls) \<Longrightarrow> channelSearches calls = []"
  using fetchVideoComments_loop_searches [of yt vidId "[]" None "[]" "(cs, calls)"]
  by (simp add: fetchVideoComments_def)

lemma upsertVideo_frame:
  "upsertVideo uid chanId video nv w = (r, w') \<Longrightarrow>
   YouTubeChannels w' = YouTubeChannels w \<and> VideoComments w' = VideoComments w \<and>
   requests w' = requests w \<and> prefix (Videos w) (Videos w')"
  by (auto simp: upsertVideo_def split: list.splits sum.splits)

lemma videos_loop_frame:
  "videos_loop yt uid chanId vs nv w = Some (r, w') \<Longrightarrow>
   YouTubeChannels w' = YouTubeChannels w \<and> prefix (Videos w) (Videos w') \<and>
   channelSearches (requests w') = channelSearches (requests w)"
proof (induction vs arbitrary: nv w)
  case Nil
  then show ?case by simp
next
  case (Cons video rest)
  obtain u w1 where u: "upsertVideo uid chanId video nv w = (u, w1)"
    by (cases "upsertVideo uid chanId video nv w")
  note f1 = upsertVideo_frame [OF u]
  show ?case
  proof (cases u)
    case (Inl e)
    with Cons.prems u f1 show ?thesis by simp
  next
    case (Inr p)
    obtain rowId nv1 where p: "p = (rowId, nv1)" by (cases p)
    from Cons.prems u Inr p obtain comments calls where
      c: "fetchVideoComments yt (YouTubeVideo.videoId video) = Some (comments, calls)"
      by (auto split: option.splits)
    obtain rc w2 where i: "insertComments rowId uid comments (send calls w1) = (rc, w2)"
      by (cases "insertComments rowId uid comments (send calls w1)")
    note f2 = insertComments_frame [OF i]
    note s = fetchVideoComments_searches [OF c]
    show ?thesis
    proof (cases rc)
      case (Inl e)
      with Cons.prems u Inr p c i f1 f2 s show ?thesis by simp
    next
      case rcr: (Inr x)
      with Cons.prems u Inr p c i have "videos_loop yt uid chanId rest nv1 w2 = Some (r, w')"
        by simp
      from Cons.IH [OF this] f1 f2 s show ?thesis
        by (auto elim: prefix_order.trans)
    qed
  qed
qed

lemma getChannelId_truthy: "getChannelId yt n = Some c \<Longrightarrow> c \<noteq> []"
  by (auto simp: getChannelId_def split: response.splits option.splits list.splits if_splits)

lemma resolveChannel_fst: "fst (resolveChannel yt uid c w) = effectiveChannelId yt c"
  by (simp add: resolveChannel_def effectiveChannelId_def split: option.splits)

lemma resolveChannel_frame:
  "resolveChannel yt uid c w = (r, w') \<Longrightarrow>
   Videos w' = Videos w \<and> VideoComments w' = VideoComments w \<and>
   requests w' =
     requests w @ (if truthy (YouTubeChannelType.channelId c) then []
                   else [SearchList (ChannelQuery (name c))])"
  by (auto simp: resolveChannel_def getChannelId_calls_def split: option.splits if_splits)

lemma channels_loop_frame:
  "channels_loop yt uid chans nv w = Some (r, w') \<Longrightarrow> prefix (Videos w) (Videos w')"
proof (induction chans arbitrary: nv w)
  case Nil
  then show ?case by simp
next
  case (Cons channel rest)
  obtain e w1 where rs: "resolveChannel yt uid channel w = (e, w1)"
    by (cases "resolveChannel yt uid channel w")
  note f1 = resolveChannel_frame [OF rs]
  show ?case
  proof (cases e)
    case None
    with Cons.prems rs have "channels_loop yt uid rest nv w1 = Some (r, w')" by simp
    from Cons.IH [OF this] f1 show ?thesis by simp
  next
    case (Some chanId)
    with Cons.prems rs obtain ids calls where
      f: "fetchAllVideosForChannel yt chanId = Some (ids, calls)"
      by (auto split: option.splits)
    let ?w1 = "send (calls @ fetchVideoDetails_calls ids) w1"
    from Cons.prems rs Some f obtain rv w2 where
      v: "videos_loop yt uid chanId (fetchVideoDetails yt ids) nv ?w1 = Some (rv, w2)"
      by (auto split: option.splits)
    note f2 = videos_loop_frame [OF v]
    show ?thesis
    proof (cases rv)
      case (Inl x)
      with Cons.prems rs Some f v f1 f2 show ?thesis by simp
    next
      case (Inr nv1)
      with Cons.prems rs Some f v have "channels_loop yt uid rest nv1 w2 = Some (r, w')"
        by simp
      from Cons.IH [OF this] f1 f2 show ?thesis
        by (auto elim: prefix_order.trans)
    qed
  qed
qed

section \<open>Channel Resolver in the ingestion\<close>

lemma channels_loop_searches:
  "channels_loop yt uid chans nv w = Some (r, w') \<Longrightarrow>
   \<exists>ns. channelSearches (requests w') = channelSearches (requests w) @ ns \<and>
        prefix ns (unsetNames chans) \<and>
        (\<forall>vs. r = Inr vs \<longrightarrow> ns = unsetNames chans)"
proof (induction chans arbitrary: nv w)
  case Nil
  then show ?case by (simp add: unsetNames_def)
next
  case (Cons channel rest)
  obtain e w1 where rs: "resolveChannel yt uid channel w = (e, w1)"
    by (cases "resolveChannel yt uid channel w")
  let ?n = "if truthy (YouTubeChannelType.channelId channel) then [] else [name channel]"
  from resolveChannel_frame [OF rs]
  have s1: "channelSearches (requests w1) = channelSearches (requests w) @ ?n"
    by simp
  have un: "unsetNames (channel # rest) = ?n @ unsetNames rest"
    by (simp add: unsetNames_def)
  have step: "\<exists>ns. channelSearches (requests w') = channelSearches (requests w) @ ns \<and>
        prefix ns (unsetNames (channel # rest)) \<and>
        (\<forall>vs. r = Inr vs \<longrightarrow> ns = unsetNames (channel # rest))"
    if "channels_loop yt uid rest nv' w2 = Some (r, w')"
      and "channelSearches (requests w2) = channelSearches (requests w1)" for nv' w2
  proof -
    from Cons.IH [OF that(1)] obtain ns where
      ns: "channelSearches (requests w') = channelSearches (requests w2) @ ns"
        "prefix ns (unsetNames rest)" "\<forall>vs. r = Inr vs \<longrightarrow> ns = unsetNames rest"
      by blast
    show ?thesis
      by (rule exI [of _ "?n @ ns"]) (use ns that(2) s1 un in auto)
  qed
  show ?case
  proof (cases e)
    case None
    with Cons.prems rs have "channels_loop yt uid rest nv w1 = Some (r, w')" by simp
    from step [OF this] show ?thesis by simp
  next
    case (Some chanId)
    with Cons.prems rs obtain ids calls where
      f: "fetchAllVideosForChannel yt chanId = Some (ids, calls)"
      by (auto split: option.splits)
    let ?w1 = "send (calls @ fetchVideoDetails_calls ids) w1"
    from Cons.prems rs Some f obtain rv w2 where
      v: "videos_loop yt uid chanId (fetchVideoDetails yt ids) nv ?w1 = Some (rv, w2)"
      by (auto split: option.splits)
    from videos_loop_frame [OF v] fetchAllVideosForChannel_searches [OF f]
    have s2: "channelSearches (requests w2) = channelSearches (requests w1)"
      by (simp add: fetchVideoDetails_calls_def)
    show ?thesis
    proof (cases rv)
      case (Inl x)
      with Cons.prems rs Some f v have "r = Inl x" "w' = w2" by simp_all
      with s1 s2 un show ?thesis
        by (intro exI [of _ ?n]) auto
    next
      case (Inr nv1)
      with Cons.prems rs Some f v have "channels_loop yt uid rest nv1 w2 = Some (r, w')"
        by simp
      from step [OF this s2] show ?thesis .
    qed
  qed
qed

lemma updateChannelId_rows:
  assumes "r \<in> set (YouTubeChannels (updateChannelId rid uid cid w))"
    and "YouTubeChannelType.id' r = rid" and "YouTubeChannelType.userId r = uid"
  shows "YouTubeChannelType.channelId r = Some cid"
proof -
  let ?g = "\<lambda>c. if YouTubeChannelType.id' c = rid \<and> YouTubeChannelType.userId c = uid
                   then c\<lparr> YouTubeChannelType.channelId := Some cid,
                          YouTubeChannelType.updatedAt := Now (clockReads w) \<rparr>
                   else c"
  have "YouTubeChannels (updateChannelId rid uid cid w) = map ?g (YouTubeChannels w)"
    by (simp add: updateChannelId_def)
  with assms(1) have "r \<in> ?g ` set (YouTubeChannels w)"
    by (simp only: set_map)
  then obtain c where r: "r = ?g c"
    by (rule imageE)
  show ?thesis
  proof (cases "YouTubeChannelType.id' c = rid \<and> YouTubeChannelType.userId c = uid")
    case True
    with r show ?thesis by simp
  next
    case False
    with r have "r = c" by simp
    with False assms(2,3) show ?thesis by simp
  qed
qed


lemma resolveChannel_persists:
  assumes "\<not> truthy (YouTubeChannelType.channelId c)"
    and "resolveChannel yt uid c w = (Some cid, w1)"
  shows "cid \<noteq> [] \<and>
   (\<forall>r \<in> set (YouTubeChannels w1).
      YouTubeChannelType.id' r = YouTubeChannelType.id' c \<and> YouTubeChannelType.userId r = uid \<longrightarrow>
      YouTubeChannelType.channelId r = Some cid)"
proof -
  from assms have g: "getChannelId yt (name c) = Some cid"
    and w1: "w1 = updateChannelId (YouTubeChannelType.id' c) uid cid
                    (send (getChannelId_calls (name c)) w)"
    by (auto simp: resolveChannel_def split: option.splits)
  from g have "cid \<noteq> []" by (rule getChannelId_truthy)
  moreover have "YouTubeChannelType.channelId r = Some cid"
    if "r \<in> set (YouTubeChannels w1)" "YouTubeChannelType.id' r = YouTubeChannelType.id' c"
      "YouTubeChannelType.userId r = uid" for r
    using that unfolding w1 by (rule updateChannelId_rows)
  ultimately show ?thesis by blast
qed

section \<open>Running the ingestion again\<close>

lemma existingVideo_found:
  assumes "existingVideo vidId uid w = r # rs" and "prefix (Videos w) (Videos w2)"
  shows "existingVideo vidId uid w2 = [r]"
proof -
  let ?P = "\<lambda>r. Video.videoId r = vidId \<and> Video.userId r = uid"
  from assms(2) obtain zs where zs: "Videos w2 = Videos w @ zs"
    by (auto simp: prefix_def)
  from assms(1) obtain ys where "filter ?P (Videos w) = r # ys"
    by (cases "filter ?P (Videos w)") (auto simp: existingVideo_def)
  with zs show ?thesis
    by (simp add: existingVideo_def)
qed

lemma existingVideo_same:
  "Videos w2 = Videos w \<Longrightarrow> existingVideo vidId uid w2 = existingVideo vidId uid w"
  by (simp add: existingVideo_def)

lemma newVideoOf_key:
  "newVideoOf uid chanId video = Inr nv \<Longrightarrow>
   NewVideo.videoId nv = YouTubeVideo.videoId video \<and> NewVideo.userId nv = uid"
  by (auto simp: newVideoOf_def split: option.splits sum.splits)

lemma newVideoOf_error:
  "newVideoOf uid chanId video = Inl e \<Longrightarrow> newVideoOf uid' chanId' video = Inl e"
  by (auto simp: newVideoOf_def split: option.splits sum.splits)

lemma existingVideo_inserted:
  assumes "existingVideo (YouTubeVideo.videoId video) uid w = []"
    and "newVideoOf uid chanId video = Inr nv"
  shows "existingVideo (YouTubeVideo.videoId video) uid (snd (insertVideo nv w)) =
           [fst (insertVideo nv w)]"
proof -
  let ?P = "\<lambda>r. Video.videoId r = YouTubeVideo.videoId video \<and> Video.userId r = uid"
  from assms(1) have "filter ?P (Videos w) = []"
    by (cases "filter ?P (Videos w)") (auto simp: existingVideo_def)
  with newVideoOf_key [OF assms(2)] show ?thesis
    by (simp add: existingVideo_def)
qed

text \<open>
  The step on one video in a later run, in a store whose video table extends
  the one the first run left.
\<close>

lemma upsertVideo_rerun:
  assumes a: "upsertVideo uid chanA video nva wa = (ua, wa1)"
    and p: "prefix (Videos wa1) (Videos wb)"
    and x: "\<forall>e. ua = Inl e \<longrightarrow> Videos wb = Videos wa1"
  shows "upsertVideo uid chanB video nvb wb =
           (case ua of Inl e \<Rightarrow> Inl e | Inr q \<Rightarrow> Inr (fst q, nvb), wb)"
proof (cases "existingVideo (YouTubeVideo.videoId video) uid wa")
  case (Cons r rs)
  with a have ua: "ua = Inr (Video.id' r, nva)" and w: "wa1 = wa"
    by (simp_all add: upsertVideo_def)
  from existingVideo_found [OF Cons] p w
  have "existingVideo (YouTubeVideo.videoId video) uid wb = [r]" by simp
  with ua show ?thesis by (simp add: upsertVideo_def)
next
  case Nil
  show ?thesis
  proof (cases "newVideoOf uid chanA video")
    case (Inl e)
    with Nil a have ua: "ua = Inl e" and w: "wa1 = wa"
      by (simp_all add: upsertVideo_def)
    with x have "Videos wb = Videos wa" by simp
    from existingVideo_same [OF this] Nil
    have "existingVideo (YouTubeVideo.videoId video) uid wb = []" by simp
    with ua newVideoOf_error [OF Inl, of uid chanB] show ?thesis
      by (simp add: upsertVideo_def)
  next
    case (Inr nv)
    with Nil a have ua: "ua = Inr (Video.id' (fst (insertVideo nv wa)), nva @ [fst (insertVideo nv wa)])"
      and w: "wa1 = snd (insertVideo nv wa)"
      by (simp_all add: upsertVideo_def)
    from existingVideo_inserted [OF Nil Inr] w
    have "existingVideo (YouTubeVideo.videoId video) uid wa1 = [fst (insertVideo nv wa)]"
      by simp
    from existingVideo_found [OF this p]
    have "existingVideo (YouTubeVideo.videoId video) uid wb = [fst (insertVideo nv wa)]" .
    with ua show ?thesis by (simp add: upsertVideo_def)
  qed
qed

lemma videos_loop_rerun:
  assumes "videos_loop yt uid chanA vs nva wa = Some (ra, wa')"
    and "prefix (Videos wa') (Videos wb)"
    and "\<forall>e. ra = Inl e \<longrightarrow> Videos wb = Videos wa'"
  shows "\<exists>rb wb'. videos_loop yt uid chanB vs nvb wb = Some (rb, wb') \<and>
           Videos wb' = Videos wb \<and> mirrors ra rb nvb \<and> sameNewComments wa wa' wb wb'"
  using assms
proof (induction vs arbitrary: nva wa wb)
  case Nil
  then show ?case by (auto simp: mirrors_def sameNewComments_refl)
next
  case (Cons video rest)
  obtain ua wa1 where u: "upsertVideo uid chanA video nva wa = (ua, wa1)"
    by (cases "upsertVideo uid chanA video nva wa")
  note f1 = upsertVideo_frame [OF u]
  show ?case
  proof (cases ua)
    case (Inl e)
    with Cons.prems(1) u have r: "ra = Inl e" "wa' = wa1" by simp_all
    with Cons.prems(2,3) have "prefix (Videos wa1) (Videos wb)" "\<forall>e. ua = Inl e \<longrightarrow> Videos wb = Videos wa1"
      by simp_all
    from upsertVideo_rerun [OF u this, of chanB nvb] Inl
    have "upsertVideo uid chanB video nvb wb = (Inl e, wb)" by simp
    with r f1 show ?thesis
      by (simp add: mirrors_def sameNewComments_refl)
  next
    case (Inr q)
    obtain rowId nva1 where q: "q = (rowId, nva1)" by (cases q)
    from Cons.prems(1) u Inr q obtain comments calls where
      c: "fetchVideoComments yt (YouTubeVideo.videoId video) = Some (comments, calls)"
      by (auto split: option.splits)
    obtain rca wa2 where ia: "insertComments rowId uid comments (send calls wa1) = (rca, wa2)"
      by (cases "insertComments rowId uid comments (send calls wa1)")
    obtain rcb wb2 where ib: "insertComments rowId uid comments (send calls wb) = (rcb, wb2)"
      by (cases "insertComments rowId uid comments (send calls wb)")
    note fa = insertComments_frame [OF ia]
    note fb = insertComments_frame [OF ib]
    from insertComments_rerun [OF ia ib]
    have rc: "rcb = rca" and sc0: "sameNewComments (send calls wa1) wa2 (send calls wb) wb2"
      by simp_all
    from sameNewComments_cong [OF sc0, of wa wb] f1
    have sc: "sameNewComments wa wa2 wb wb2" by simp
    have mono: "prefix (Videos wa2) (Videos wa')"
    proof (cases rca)
      case (Inl e)
      with Cons.prems(1) u Inr q c ia show ?thesis by simp
    next
      case (Inr x)
      with Cons.prems(1) u \<open>ua = Inr q\<close> q c ia
      have "videos_loop yt uid chanA rest nva1 wa2 = Some (ra, wa')" by simp
      from videos_loop_frame [OF this] show ?thesis by simp
    qed
    with fa f1 Cons.prems(2) have p1: "prefix (Videos wa1) (Videos wb)"
      by (auto elim: prefix_order.trans)
    from upsertVideo_rerun [OF u p1, of chanB nvb] Inr q
    have ub: "upsertVideo uid chanB video nvb wb = (Inr (rowId, nvb), wb)" by simp
    show ?thesis
    proof (cases rca)
      case (Inl e)
      with Cons.prems(1) u \<open>ua = Inr q\<close> q c ia have r: "ra = Inl e" "wa' = wa2" by simp_all
      with ub c ib rc Inl fb sc show ?thesis
        by (simp add: mirrors_def)
    next
      case rcr: (Inr x)
      with Cons.prems(1) u \<open>ua = Inr q\<close> q c ia
      have ra: "videos_loop yt uid chanA rest nva1 wa2 = Some (ra, wa')" by simp
      from fb Cons.prems(2,3)
      have "prefix (Videos wa') (Videos wb2)" "\<forall>e. ra = Inl e \<longrightarrow> Videos wb2 = Videos wa'"
        by simp_all
      from Cons.IH [OF ra this] obtain rb wb' where
        b: "videos_loop yt uid chanB rest nvb wb2 = Some (rb, wb')"
          "Videos wb' = Videos wb2" "mirrors ra rb nvb" "sameNewComments wa2 wa' wb2 wb'"
        by blast
      from ub c ib rc rcr b(1) have "videos_loop yt uid chanB (video # rest) nvb wb = Some (rb, wb')"
        by simp
      with b(2,3) fb sameNewComments_trans [OF sc b(4)] show ?thesis by simp
    qed
  qed
qed

lemma channels_loop_rerun:
  assumes "channels_loop yt uid chansA nva wa = Some (ra, wa')"
    and "prefix (Videos wa') (Videos wb)"
    and "\<forall>e. ra = Inl e \<longrightarrow> Videos wb = Videos wa'"
    and "map (effectiveChannelId yt) chansB = map (effectiveChannelId yt) chansA"
  shows "\<exists>rb wb'. channels_loop yt uid chansB nvb wb = Some (rb, wb') \<and>
           Videos wb' = Videos wb \<and> mirrors ra rb nvb \<and> sameNewComments wa wa' wb wb'"
  using assms
proof (induction chansA arbitrary: chansB nva wa wb)
  case Nil
  then show ?case by (auto simp: mirrors_def sameNewComments_refl)
next
  case (Cons ca restA)
  from Cons.prems(4) obtain cb restB where
    cb: "chansB = cb # restB" "effectiveChannelId yt cb = effectiveChannelId yt ca"
      "map (effectiveChannelId yt) restB = map (effectiveChannelId yt) restA"
    by (cases chansB) auto
  obtain ea wa1 where rsa: "resolveChannel yt uid ca wa = (ea, wa1)"
    by (cases "resolveChannel yt uid ca wa")
  obtain eb wb1 where rsb: "resolveChannel yt uid cb wb = (eb, wb1)"
    by (cases "resolveChannel yt uid cb wb")
  from resolveChannel_fst [of yt uid ca wa] resolveChannel_fst [of yt uid cb wb] rsa rsb cb(2)
  have e: "eb = ea" by simp
  note fa = resolveChannel_frame [OF rsa]
  note fb = resolveChannel_frame [OF rsb]
  have s1: "sameNewComments wa wa1 wb wb1"
    using fa fb by (simp add: sameNewComments_refl)
  show ?case
  proof (cases ea)
    case None
    with Cons.prems(1) rsa have ra: "channels_loop yt uid restA nva wa1 = Some (ra, wa')"
      by simp
    from fb Cons.prems(2,3)
    have "prefix (Videos wa') (Videos wb1)" "\<forall>e. ra = Inl e \<longrightarrow> Videos wb1 = Videos wa'"
      by simp_all
    from Cons.IH [OF ra this cb(3)] obtain rb wb' where
      b: "channels_loop yt uid restB nvb wb1 = Some (rb, wb')"
        "Videos wb' = Videos wb1" "mirrors ra rb nvb" "sameNewComments wa1 wa' wb1 wb'"
      by blast
    from b(1) rsb e None cb(1) have "channels_loop yt uid chansB nvb wb = Some (rb, wb')"
      by simp
    with b(2,3) fb sameNewComments_trans [OF s1 b(4)] show ?thesis by simp
  next
    case (Some chanId)
    with Cons.prems(1) rsa obtain ids calls where
      f: "fetchAllVideosForChannel yt chanId = Some (ids, calls)"
      by (auto split: option.splits)
    let ?wa1 = "send (calls @ fetchVideoDetails_calls ids) wa1"
    let ?wb1 = "send (calls @ fetchVideoDetails_calls ids) wb1"
    from Cons.prems(1) rsa Some f obtain rva wa2 where
      va: "videos_loop yt uid chanId (fetchVideoDetails yt ids) nva ?wa1 = Some (rva, wa2)"
      by (auto split: option.splits)
    have tail: "(\<exists>e. rva = Inl e \<and> ra = Inl e \<and> wa' = wa2) \<or>
        (\<exists>nva1. rva = Inr nva1 \<and> channels_loop yt uid restA nva1 wa2 = Some (ra, wa'))"
      using Cons.prems(1) rsa Some f va by (cases rva) auto
    then have mono: "prefix (Videos wa2) (Videos wa')"
      by (auto dest: channels_loop_frame)
    from mono Cons.prems(2) fb have p: "prefix (Videos wa2) (Videos ?wb1)"
      by (auto elim: prefix_order.trans)
    from tail Cons.prems(3) fb have x: "\<forall>e. rva = Inl e \<longrightarrow> Videos ?wb1 = Videos wa2"
      by auto
    from videos_loop_rerun [OF va p x, of chanId nvb] obtain rvb wb2 where
      vb: "videos_loop yt uid chanId (fetchVideoDetails yt ids) nvb ?wb1 = Some (rvb, wb2)"
        "Videos wb2 = Videos ?wb1" "mirrors rva rvb nvb" "sameNewComments ?wa1 wa2 ?wb1 wb2"
      by blast
    from sameNewComments_cong [OF vb(4), of wa wb] fa fb
    have s2: "sameNewComments wa wa2 wb wb2" by simp
    from tail show ?thesis
    proof (elim disjE exE conjE)
      fix e assume t: "rva = Inl e" "ra = Inl e" "wa' = wa2"
      with vb(3) have "rvb = Inl e" by (simp add: mirrors_def)
      with vb(1) rsb e Some f cb(1) have "channels_loop yt uid chansB nvb wb = Some (Inl e, wb2)"
        by simp
      with t vb(2) fb s2 show ?thesis by (simp add: mirrors_def)
    next
      fix nva1 assume t: "rva = Inr nva1" "channels_loop yt uid restA nva1 wa2 = Some (ra, wa')"
      with vb(3) have rvb: "rvb = Inr nvb" by (simp add: mirrors_def)
      from vb(2) fb Cons.prems(2,3)
      have "prefix (Videos wa') (Videos wb2)" "\<forall>e. ra = Inl e \<longrightarrow> Videos wb2 = Videos wa'"
        by simp_all
      from Cons.IH [OF t(2) this cb(3)] obtain rb wb' where
        b: "channels_loop yt uid restB nvb wb2 = Some (rb, wb')"
          "Videos wb' = Videos wb2" "mirrors ra rb nvb" "sameNewComments wa2 wa' wb2 wb'"
        by blast
      from b(1) vb(1) rvb rsb e Some f cb(1)
      have "channels_loop yt uid chansB nvb wb = Some (rb, wb')" by simp
      with b(2,3) vb(2) fb sameNewComments_trans [OF s2 b(4)] show ?thesis by simp
    qed
  qed
qed

lemma sameChannel_refl [simp]: "sameChannel yt a a"
  by (simp add: sameChannel_def)

lemma sameChannel_trans: "sameChannel yt a b \<Longrightarrow> sameChannel yt b c \<Longrightarrow> sameChannel yt a c"
  by (simp add: sameChannel_def)

lemma resolveChannel_table:
  assumes rs: "resolveChannel yt uid c w = (e, w1)"
    and ag: "\<forall>r \<in> set (YouTubeChannels w).
        YouTubeChannelType.id' r = YouTubeChannelType.id' c \<and> YouTubeChannelType.userId r = uid \<longrightarrow>
        name r = name c \<and> YouTubeChannelType.channelId r = YouTubeChannelType.channelId c"
  shows "\<exists>g. YouTubeChannels w1 = map g (YouTubeChannels w) \<and>
           (\<forall>r. (r \<in> set (YouTubeChannels w) \<longrightarrow> sameChannel yt r (g r)) \<and>
                (YouTubeChannelType.id' r \<noteq> YouTubeChannelType.id' c \<longrightarrow> g r = r))"
proof (cases "\<not> truthy (YouTubeChannelType.channelId c) \<and> getChannelId yt (name c) \<noteq> None")
  case False
  with rs have "YouTubeChannels w1 = YouTubeChannels w"
    by (auto simp: resolveChannel_def split: option.splits if_splits)
  then show ?thesis
    by (intro exI [of _ "\<lambda>r. r"]) simp
next
  case True
  then obtain cid where cid: "getChannelId yt (name c) = Some cid" and un: "\<not> truthy (YouTubeChannelType.channelId c)"
    by auto
  let ?g = "\<lambda>r. if YouTubeChannelType.id' r = YouTubeChannelType.id' c \<and> YouTubeChannelType.userId r = uid
                 then r\<lparr> YouTubeChannelType.channelId := Some cid,
                        YouTubeChannelType.updatedAt :=
                          Now (clockReads (send (getChannelId_calls (name c)) w)) \<rparr>
                 else r"
  from rs cid un have "YouTubeChannels w1 = map ?g (YouTubeChannels w)"
    by (auto simp: resolveChannel_def updateChannelId_def send_def)
  moreover have "sameChannel yt r (?g r)" if "r \<in> set (YouTubeChannels w)" for r
  proof (cases "YouTubeChannelType.id' r = YouTubeChannelType.id' c \<and> YouTubeChannelType.userId r = uid")
    case False
    then show ?thesis by auto
  next
    case m: True
    with ag that have "name r = name c" "YouTubeChannelType.channelId r = YouTubeChannelType.channelId c"
      by auto
    with un cid have "effectiveChannelId yt r = Some cid"
      by (simp add: effectiveChannelId_def)
    moreover from getChannelId_truthy [OF cid] m
    have "effectiveChannelId yt (?g r) = Some cid"
      by (simp add: effectiveChannelId_def)
    ultimately show ?thesis using m by (simp add: sameChannel_def)
  qed
  moreover have "?g r = r"
    if "YouTubeChannelType.id' r \<noteq> YouTubeChannelType.id' c" for r :: YouTubeChannelType
    using that by simp
  ultimately show ?thesis by blast
qed

lemma channels_loop_effective:
  assumes "channels_loop yt uid chans nv w = Some (res, w')"
    and "distinct (map YouTubeChannelType.id' chans)"
    and "\<forall>c \<in> set chans. \<forall>r \<in> set (YouTubeChannels w).
        YouTubeChannelType.id' r = YouTubeChannelType.id' c \<and> YouTubeChannelType.userId r = uid \<longrightarrow>
        name r = name c \<and> YouTubeChannelType.channelId r = YouTubeChannelType.channelId c"
  shows "list_all2 (sameChannel yt) (YouTubeChannels w) (YouTubeChannels w')"
  using assms
proof (induction chans arbitrary: nv w)
  case Nil
  then show ?case by (simp add: list_all2_same)
next
  case (Cons c rest)
  obtain e w1 where rs: "resolveChannel yt uid c w = (e, w1)"
    by (cases "resolveChannel yt uid c w")
  from Cons.prems(3) have "\<forall>r \<in> set (YouTubeChannels w).
        YouTubeChannelType.id' r = YouTubeChannelType.id' c \<and> YouTubeChannelType.userId r = uid \<longrightarrow>
        name r = name c \<and> YouTubeChannelType.channelId r = YouTubeChannelType.channelId c"
    by simp
  from resolveChannel_table [OF rs this] obtain g where
    g: "YouTubeChannels w1 = map g (YouTubeChannels w)"
      "\<And>r. r \<in> set (YouTubeChannels w) \<Longrightarrow> sameChannel yt r (g r)"
      "\<And>r. YouTubeChannelType.id' r \<noteq> YouTubeChannelType.id' c \<Longrightarrow> g r = r"
    by blast
  have first: "list_all2 (sameChannel yt) (YouTubeChannels w) (YouTubeChannels w1)"
    unfolding g(1) by (simp add: list_all2_map2 list_all2_same g(2))
  have ag1: "\<forall>c' \<in> set rest. \<forall>r \<in> set (YouTubeChannels w1).
        YouTubeChannelType.id' r = YouTubeChannelType.id' c' \<and> YouTubeChannelType.userId r = uid \<longrightarrow>
        name r = name c' \<and> YouTubeChannelType.channelId r = YouTubeChannelType.channelId c'"
  proof (intro ballI impI)
    fix c' r
    assume c': "c' \<in> set rest" and r: "r \<in> set (YouTubeChannels w1)"
      and m: "YouTubeChannelType.id' r = YouTubeChannelType.id' c' \<and> YouTubeChannelType.userId r = uid"
    from r g(1) obtain r0 where r0: "r0 \<in> set (YouTubeChannels w)" "r = g r0"
      by auto
    from g(2) [OF r0(1)] r0(2) have i: "YouTubeChannelType.id' r = YouTubeChannelType.id' r0"
      by (simp add: sameChannel_def)
    from Cons.prems(2) have "YouTubeChannelType.id' c \<notin> YouTubeChannelType.id' ` set rest"
      by simp
    with c' have "YouTubeChannelType.id' c' \<noteq> YouTubeChannelType.id' c"
      by (metis imageI)
    with m i g(3) [of r0] r0(2) have "r = r0" by simp
    with r0(1) c' m Cons.prems(3) show
      "name r = name c' \<and> YouTubeChannelType.channelId r = YouTubeChannelType.channelId c'"
      by simp
  qed
  from Cons.prems(2) have d: "distinct (map YouTubeChannelType.id' rest)" by simp
  have rest: "list_all2 (sameChannel yt) (YouTubeChannels w1) (YouTubeChannels w')"
  proof (cases e)
    case None
    with Cons.prems(1) rs have "channels_loop yt uid rest nv w1 = Some (res, w')" by simp
    from Cons.IH [OF this d ag1] show ?thesis .
  next
    case (Some chanId)
    with Cons.prems(1) rs obtain ids calls where
      f: "fetchAllVideosForChannel yt chanId = Some (ids, calls)"
      by (auto split: option.splits)
    let ?w1 = "send (calls @ fetchVideoDetails_calls ids) w1"
    from Cons.prems(1) rs Some f obtain rv w2 where
      v: "videos_loop yt uid chanId (fetchVideoDetails yt ids) nv ?w1 = Some (rv, w2)"
      by (auto split: option.splits)
    from videos_loop_frame [OF v] have t: "YouTubeChannels w2 = YouTubeChannels w1" by simp
    show ?thesis
    proof (cases rv)
      case (Inl x)
      with Cons.prems(1) rs Some f v have "w' = w2" by simp
      with t show ?thesis by (simp add: list_all2_same)
    next
      case (Inr nv1)
      with Cons.prems(1) rs Some f v have r: "channels_loop yt uid rest nv1 w2 = Some (res, w')"
        by simp
      from ag1 t have "\<forall>c' \<in> set rest. \<forall>r \<in> set (YouTubeChannels w2).
        YouTubeChannelType.id' r = YouTubeChannelType.id' c' \<and> YouTubeChannelType.userId r = uid \<longrightarrow>
        name r = name c' \<and> YouTubeChannelType.channelId r = YouTubeChannelType.channelId c'"
        by simp
      from Cons.IH [OF r d this] t show ?thesis by simp
    qed
  qed
  from first rest show ?case
    by (rule list_all2_trans [rotated 1]) (rule sameChannel_trans)
qed

lemma list_all2_filter:
  "list_all2 R xs ys \<Longrightarrow> (\<And>a b. R a b \<Longrightarrow> P a = P b) \<Longrightarrow>
   list_all2 R (filter P xs) (filter P ys)"
  by (induction rule: list_all2_induct) auto

lemma list_all2_map_eq:
  "list_all2 R xs ys \<Longrightarrow> (\<And>a b. R a b \<Longrightarrow> f b = f a) \<Longrightarrow> map f ys = map f xs"
  by (induction rule: list_all2_induct) auto

section \<open>What a finished run has covered\<close>

lemma insertComments_ok:
  "insertComments rowId uid cs w = (Inr u, w') \<Longrightarrow>
   list_all (\<lambda>c. YouTubeComment.snippet c \<noteq> None) cs"
proof (induction cs arbitrary: w)
  case Nil
  then show ?case by simp
next
  case (Cons c cs)
  then show ?case
    by (cases "newCommentOf rowId uid c")
       (auto simp: newCommentOf_def split: option.splits)
qed

lemma insertComments_storable:
  "list_all (\<lambda>c. YouTubeComment.snippet c \<noteq> None) cs \<Longrightarrow>
   \<exists>w'. insertComments rowId uid cs w = (Inr (), w') \<and> Videos w' = Videos w \<and>
        YouTubeChannels w' = YouTubeChannels w"
proof (induction cs arbitrary: w)
  case Nil
  then show ?case by simp
next
  case (Cons c cs)
  from Cons.prems obtain nc where nc: "newCommentOf rowId uid c = Inr nc"
    by (auto simp: newCommentOf_def split: option.splits)
  from Cons.prems have "list_all (\<lambda>c. YouTubeComment.snippet c \<noteq> None) cs" by simp
  from Cons.IH [OF this, of "snd (insertComment nc w)"] nc show ?case
    by simp
qed

lemma videoKnown_mono:
  "videoKnown yt uid w video \<Longrightarrow> prefix (Videos w) (Videos w') \<Longrightarrow> videoKnown yt uid w' video"
proof -
  assume k: "videoKnown yt uid w video" and p: "prefix (Videos w) (Videos w')"
  from k obtain r rs where "existingVideo (YouTubeVideo.videoId video) uid w = r # rs"
    by (cases "existingVideo (YouTubeVideo.videoId video) uid w") (auto simp: videoKnown_def)
  from existingVideo_found [OF this p] k show ?thesis
    by (simp add: videoKnown_def)
qed

lemma videoKnown_same:
  "Videos w' = Videos w \<Longrightarrow> videoKnown yt uid w' video = videoKnown yt uid w video"
  by (simp add: videoKnown_def existingVideo_def)

lemma covered_mono:
  "covered yt uid w chanId \<Longrightarrow> prefix (Videos w) (Videos w') \<Longrightarrow> covered yt uid w' chanId"
  by (auto simp: covered_def list_all_iff split: option.splits intro: videoKnown_mono)

lemma settled_mono:
  "settled yt uid w c \<Longrightarrow> prefix (Videos w) (Videos w') \<Longrightarrow> settled yt uid w' c"
  by (auto simp: settled_def intro: covered_mono split: if_splits)

lemma upsertVideo_known:
  assumes "upsertVideo uid chanId video nv w = (Inr q, w1)"
  shows "existingVideo (YouTubeVideo.videoId video) uid w1 \<noteq> []"
proof (cases "existingVideo (YouTubeVideo.videoId video) uid w")
  case (Cons r rs)
  with assms show ?thesis by (auto simp: upsertVideo_def)
next
  case Nil
  with assms obtain v where v: "newVideoOf uid chanId video = Inr v" "w1 = snd (insertVideo v w)"
    by (cases "newVideoOf uid chanId video") (auto simp: upsertVideo_def)
  from existingVideo_inserted [OF Nil v(1)] v(2) show ?thesis by simp
qed

lemma videos_loop_covers:
  "videos_loop yt uid chanId vs nv w = Some (Inr nv', w') \<Longrightarrow>
   list_all (videoKnown yt uid w') vs"
proof (induction vs arbitrary: nv w)
  case Nil
  then show ?case by simp
next
  case (Cons video rest)
  obtain u w1 where u: "upsertVideo uid chanId video nv w = (u, w1)"
    by (cases "upsertVideo uid chanId video nv w")
  from Cons.prems u obtain rowId nv1 where q: "u = Inr (rowId, nv1)"
    by (cases u) auto
  from Cons.prems u q obtain comments calls where
    c: "fetchVideoComments yt (YouTubeVideo.videoId video) = Some (comments, calls)"
    by (auto split: option.splits)
  obtain rc w2 where i: "insertComments rowId uid comments (send calls w1) = (rc, w2)"
    by (cases "insertComments rowId uid comments (send calls w1)")
  from Cons.prems u q c i obtain x where rc: "rc = Inr x"
    by (cases rc) auto
  with Cons.prems u q c i have r: "videos_loop yt uid chanId rest nv1 w2 = Some (Inr nv', w')"
    by simp
  from insertComments_ok i rc c have st: "commentsStorable yt video"
    by (auto simp: commentsStorable_def)
  from upsertVideo_known u q have "existingVideo (YouTubeVideo.videoId video) uid w1 \<noteq> []"
    by simp
  with st have "videoKnown yt uid w1 video"
    by (simp add: videoKnown_def)
  moreover from insertComments_frame [OF i] videos_loop_frame [OF r]
  have "prefix (Videos w1) (Videos w')" by simp
  ultimately have "videoKnown yt uid w' video"
    by (rule videoKnown_mono)
  with Cons.IH [OF r] show ?case by simp
qed

lemma videos_loop_covered:
  "list_all (videoKnown yt uid w) vs \<Longrightarrow>
   \<exists>w'. videos_loop yt uid chanId vs nv w = Some (Inr nv, w') \<and> Videos w' = Videos w \<and>
        YouTubeChannels w' = YouTubeChannels w"
proof (induction vs arbitrary: w)
  case Nil
  then show ?case by simp
next
  case (Cons video rest)
  from Cons.prems obtain r rs where
    e: "existingVideo (YouTubeVideo.videoId video) uid w = r # rs"
    by (cases "existingVideo (YouTubeVideo.videoId video) uid w") (auto simp: videoKnown_def)
  then have u: "upsertVideo uid chanId video nv w = (Inr (Video.id' r, nv), w)"
    by (simp add: upsertVideo_def)
  from Cons.prems obtain comments calls where
    c: "fetchVideoComments yt (YouTubeVideo.videoId video) = Some (comments, calls)"
      "list_all (\<lambda>c. YouTubeComment.snippet c \<noteq> None) comments"
    by (auto simp: videoKnown_def commentsStorable_def split: option.splits)
  from insertComments_storable [OF c(2), of "Video.id' r" uid "send calls w"] obtain w2 where
    i: "insertComments (Video.id' r) uid comments (send calls w) = (Inr (), w2)"
      "Videos w2 = Videos w" "YouTubeChannels w2 = YouTubeChannels w"
    by auto
  from Cons.prems have "list_all (videoKnown yt uid w2) rest"
    by (simp add: list_all_iff videoKnown_same [OF i(2)])
  from Cons.IH [OF this] u c(1) i show ?case
    by auto
qed

lemma resolveChannel_users:
  "resolveChannel yt uid c w = (e, w1) \<Longrightarrow>
   map YouTubeChannelType.userId (YouTubeChannels w1) =
     map YouTubeChannelType.userId (YouTubeChannels w)"
  by (auto simp: resolveChannel_def updateChannelId_def comp_def
           split: option.splits if_splits)

lemma channels_loop_users:
  "channels_loop yt uid chans nv w = Some (r, w') \<Longrightarrow>
   map YouTubeChannelType.userId (YouTubeChannels w') =
     map YouTubeChannelType.userId (YouTubeChannels w)"
proof (induction chans arbitrary: nv w)
  case Nil
  then show ?case by simp
next
  case (Cons c rest)
  obtain e w1 where rs: "resolveChannel yt uid c w = (e, w1)"
    by (cases "resolveChannel yt uid c w")
  note u1 = resolveChannel_users [OF rs]
  show ?case
  proof (cases e)
    case None
    with Cons.prems rs have "channels_loop yt uid rest nv w1 = Some (r, w')" by simp
    from Cons.IH [OF this] u1 show ?thesis by simp
  next
    case (Some chanId)
    with Cons.prems rs obtain ids calls where
      f: "fetchAllVideosForChannel yt chanId = Some (ids, calls)"
      by (auto split: option.splits)
    let ?w1 = "send (calls @ fetchVideoDetails_calls ids) w1"
    from Cons.prems rs Some f obtain rv w2 where
      v: "videos_loop yt uid chanId (fetchVideoDetails yt ids) nv ?w1 = Some (rv, w2)"
      by (auto split: option.splits)
    from videos_loop_frame [OF v] have t: "YouTubeChannels w2 = YouTubeChannels w1" by simp
    show ?thesis
    proof (cases rv)
      case (Inl x)
      with Cons.prems rs Some f v have "w' = w2" by simp
      with t u1 show ?thesis by simp
    next
      case (Inr nv1)
      with Cons.prems rs Some f v have "channels_loop yt uid rest nv1 w2 = Some (r, w')"
        by simp
      from Cons.IH [OF this] t u1 show ?thesis by simp
    qed
  qed
qed

text \<open>
  While the loop over the channels runs, every channel row of the user is
  either still to come in the loop or settled.
\<close>

lemma channels_loop_settles:
  assumes "channels_loop yt uid chans nv w = Some (Inr nv', w')"
    and "\<forall>c \<in> set chans. YouTubeChannelType.userId c = uid"
    and "\<forall>r \<in> set (YouTubeChannels w).
           YouTubeChannelType.userId r = uid \<longrightarrow> r \<in> set chans \<or> settled yt uid w r"
  shows "\<forall>r \<in> set (YouTubeChannels w'). YouTubeChannelType.userId r = uid \<longrightarrow> settled yt uid w' r"
  using assms
proof (induction chans arbitrary: nv w)
  case Nil
  then show ?case by simp
next
  case (Cons c rest)
  obtain e w1 where rs: "resolveChannel yt uid c w = (e, w1)"
    by (cases "resolveChannel yt uid c w")
  note f1 = resolveChannel_frame [OF rs]
  from Cons.prems(2) have mine: "YouTubeChannelType.userId c = uid"
    and rest_mine: "\<forall>c \<in> set rest. YouTubeChannelType.userId c = uid"
    by simp_all
  have e_def: "e = effectiveChannelId yt c"
    using resolveChannel_fst [of yt uid c w] rs by simp
  have step: "\<forall>r \<in> set (YouTubeChannels w'). YouTubeChannelType.userId r = uid \<longrightarrow> settled yt uid w' r"
    if loop: "channels_loop yt uid rest nv2 w2 = Some (Inr nv', w')"
      and tbl: "YouTubeChannels w2 = YouTubeChannels w1"
      and vid: "prefix (Videos w) (Videos w2)"
      and cov: "\<And>chanId. e = Some chanId \<Longrightarrow> covered yt uid w2 chanId"
    for nv2 w2
  proof (rule Cons.IH [OF loop rest_mine], intro ballI impI)
    fix r
    assume r: "r \<in> set (YouTubeChannels w2)" and u: "YouTubeChannelType.userId r = uid"
    show "r \<in> set rest \<or> settled yt uid w2 r"
    proof (cases "\<not> truthy (YouTubeChannelType.channelId c) \<and> getChannelId yt (name c) \<noteq> None")
      case True
      then obtain cid where cid: "getChannelId yt (name c) = Some cid"
        and un: "\<not> truthy (YouTubeChannelType.channelId c)"
        by auto
      with e_def have e: "e = Some cid" by (simp add: effectiveChannelId_def)
      let ?g = "\<lambda>r. if YouTubeChannelType.id' r = YouTubeChannelType.id' c \<and>
                       YouTubeChannelType.userId r = uid
                 then r\<lparr> YouTubeChannelType.channelId := Some cid,
                        YouTubeChannelType.updatedAt :=
                          Now (clockReads (send (getChannelId_calls (name c)) w)) \<rparr>
                 else r"
      from rs cid un have "YouTubeChannels w1 = map ?g (YouTubeChannels w)"
        by (auto simp: resolveChannel_def updateChannelId_def send_def)
      with r tbl obtain r0 where r0: "r0 \<in> set (YouTubeChannels w)" "r = ?g r0"
        by auto
      show ?thesis
      proof (cases "YouTubeChannelType.id' r0 = YouTubeChannelType.id' c \<and>
                    YouTubeChannelType.userId r0 = uid")
        case True
        with r0(2) have "YouTubeChannelType.channelId r = Some cid" by simp
        with getChannelId_truthy [OF cid] cov [OF e] show ?thesis
          by (simp add: settled_def)
      next
        case False
        with r0(2) have same: "r = r0" by simp
        with r0(1) u Cons.prems(3) have "r \<in> set (c # rest) \<or> settled yt uid w r"
          by simp
        moreover from False same u have "r \<noteq> c" by auto
        ultimately show ?thesis
          using vid by (auto intro: settled_mono)
      qed
    next
      case False
      with rs have "YouTubeChannels w1 = YouTubeChannels w"
        by (auto simp: resolveChannel_def split: option.splits if_splits)
      with r tbl u Cons.prems(3) have "r \<in> set (c # rest) \<or> settled yt uid w r"
        by simp
      moreover have "settled yt uid w2 c"
      proof (cases "truthy (YouTubeChannelType.channelId c)")
        case True
        with e_def have "e = Some (the (YouTubeChannelType.channelId c))"
          by (cases "YouTubeChannelType.channelId c") (simp_all add: effectiveChannelId_def)
        from cov [OF this] True show ?thesis by (simp add: settled_def)
      next
        case unset: False
        with False show ?thesis by (simp add: settled_def)
      qed
      ultimately show ?thesis
        using vid by (auto intro: settled_mono)
    qed
  qed
  show ?case
  proof (cases e)
    case None
    with Cons.prems(1) rs have "channels_loop yt uid rest nv w1 = Some (Inr nv', w')" by simp
    from step [OF this] f1 None show ?thesis by simp
  next
    case (Some chanId)
    with Cons.prems(1) rs obtain ids calls where
      f: "fetchAllVideosForChannel yt chanId = Some (ids, calls)"
      by (auto split: option.splits)
    let ?w1 = "send (calls @ fetchVideoDetails_calls ids) w1"
    from Cons.prems(1) rs Some f obtain rv w2 where
      v: "videos_loop yt uid chanId (fetchVideoDetails yt ids) nv ?w1 = Some (rv, w2)"
      by (auto split: option.splits)
    from Cons.prems(1) rs Some f v obtain nv1 where
      rv: "rv = Inr nv1" and loop: "channels_loop yt uid rest nv1 w2 = Some (Inr nv', w')"
      by (cases rv) auto
    note f2 = videos_loop_frame [OF v]
    from videos_loop_covers v rv f have "covered yt uid w2 chanId"
      by (auto simp: covered_def)
    with Some have cov: "\<And>k. e = Some k \<Longrightarrow> covered yt uid w2 k" by simp
    from f1 f2 have "YouTubeChannels w2 = YouTubeChannels w1" "prefix (Videos w) (Videos w2)"
      by simp_all
    from step [OF loop this cov] show ?thesis .
  qed
qed

lemma channels_loop_settled:
  "\<forall>c \<in> set chans. settled yt uid w c \<Longrightarrow>
   \<exists>w'. channels_loop yt uid chans nv w = Some (Inr nv, w') \<and> Videos w' = Videos w"
proof (induction chans arbitrary: w)
  case Nil
  then show ?case by simp
next
  case (Cons c rest)
  from Cons.prems have sc: "settled yt uid w c" and sr: "\<forall>c \<in> set rest. settled yt uid w c"
    by simp_all
  have later: "\<exists>w'. channels_loop yt uid rest nv w2 = Some (Inr nv, w') \<and> Videos w' = Videos w"
    if "Videos w2 = Videos w" for w2
  proof -
    from that sr have "\<forall>c \<in> set rest. settled yt uid w2 c"
      by (auto intro: settled_mono)
    from Cons.IH [OF this] that show ?thesis by simp
  qed
  show ?case
  proof (cases "truthy (YouTubeChannelType.channelId c)")
    case False
    with sc have "getChannelId yt (name c) = None" by (simp add: settled_def)
    with False have rs: "resolveChannel yt uid c w = (None, send (getChannelId_calls (name c)) w)"
      by (simp add: resolveChannel_def)
    from later [of "send (getChannelId_calls (name c)) w"] rs show ?thesis by simp
  next
    case True
    then obtain chanId where k: "YouTubeChannelType.channelId c = Some chanId"
      by (cases "YouTubeChannelType.channelId c") simp_all
    with True have rs: "resolveChannel yt uid c w = (Some chanId, w)"
      by (simp add: resolveChannel_def)
    from sc True k obtain ids calls where
      f: "fetchAllVideosForChannel yt chanId = Some (ids, calls)"
        "list_all (videoKnown yt uid w) (fetchVideoDetails yt ids)"
      by (auto simp: settled_def covered_def split: option.splits)
    let ?w1 = "send (calls @ fetchVideoDetails_calls ids) w"
    from f(2) have "list_all (videoKnown yt uid ?w1) (fetchVideoDetails yt ids)"
      by (simp add: list_all_iff videoKnown_same [of ?w1 w])
    from videos_loop_covered [OF this, of chanId nv] obtain w2 where
      v: "videos_loop yt uid chanId (fetchVideoDetails yt ids) nv ?w1 = Some (Inr nv, w2)"
        "Videos w2 = Videos ?w1"
      by blast
    from v(2) have "Videos w2 = Videos w" by simp
    from later [OF this] rs f(1) v(1) show ?thesis by simp
  qed
qed

lemma second_run_mirrors:
  assumes run: "scrapeVideos yt auth w = Some (r1, w1)"
    and keys: "distinct (map YouTubeChannelType.id' (YouTubeChannels w))"
  shows "\<exists>r2 w2. scrapeVideos yt auth w1 = Some (r2, w2) \<and>
           Videos w2 = Videos w1 \<and>
           (case r1 of Inl e \<Rightarrow> r2 = Inl e | Inr vs \<Rightarrow> r2 = Inr []) \<and>
           (\<exists>c1 c2. VideoComments w1 = VideoComments w @ c1 \<and>
                    VideoComments w2 = VideoComments w1 @ c2 \<and>
                    map commentContent c2 = map commentContent c1)"
proof -
  let ?mine = "\<lambda>c. YouTubeChannelType.userId c = the auth"
  let ?chans = "filter ?mine (YouTubeChannels w)"
  have goal: "\<exists>r2 w2. scrapeVideos yt auth w1 = Some (r2, w2) \<and> Videos w2 = Videos w1 \<and>
      mirrors r1 r2 [] \<and> sameNewComments w w1 w1 w2"
  proof (cases "truthy auth \<and> ?chans \<noteq> []")
    case False
    with run have "w1 = w" "r1 = (if truthy auth then Inl NoChannels else Inl NotAuthenticated)"
      by (auto simp: scrapeVideos_def split: if_splits)
    with run show ?thesis
      by (auto simp: mirrors_def sameNewComments_refl)
  next
    case True
    with run have loop: "channels_loop yt (the auth) ?chans [] w = Some (r1, w1)"
      by (simp add: scrapeVideos_def)
    from keys have d: "distinct (map YouTubeChannelType.id' ?chans)"
      by (rule distinct_map_filter)
    have ag: "\<forall>c \<in> set ?chans. \<forall>r \<in> set (YouTubeChannels w).
        YouTubeChannelType.id' r = YouTubeChannelType.id' c \<and> YouTubeChannelType.userId r = the auth \<longrightarrow>
        name r = name c \<and> YouTubeChannelType.channelId r = YouTubeChannelType.channelId c"
    proof (intro ballI impI)
      fix c r
      assume "c \<in> set ?chans" "r \<in> set (YouTubeChannels w)"
        and "YouTubeChannelType.id' r = YouTubeChannelType.id' c \<and> YouTubeChannelType.userId r = the auth"
      with keys have "r = c"
        by (auto simp: distinct_map dest: inj_onD)
      then show "name r = name c \<and> YouTubeChannelType.channelId r = YouTubeChannelType.channelId c"
        by simp
    qed
    from channels_loop_effective [OF loop d ag]
    have tbl: "list_all2 (sameChannel yt) (YouTubeChannels w) (YouTubeChannels w1)" .
    let ?chans1 = "filter ?mine (YouTubeChannels w1)"
    from tbl have f: "list_all2 (sameChannel yt) ?chans ?chans1"
      by (rule list_all2_filter) (simp add: sameChannel_def)
    then have eff: "map (effectiveChannelId yt) ?chans1 = map (effectiveChannelId yt) ?chans"
      by (rule list_all2_map_eq) (simp add: sameChannel_def)
    from f True have ne: "?chans1 \<noteq> []"
      by (auto dest: list_all2_lengthD)
    have "prefix (Videos w1) (Videos w1)" "\<forall>e. r1 = Inl e \<longrightarrow> Videos w1 = Videos w1"
      by simp_all
    from channels_loop_rerun [OF loop this eff, of "[]"] obtain r2 w2 where
      "channels_loop yt (the auth) ?chans1 [] w1 = Some (r2, w2)"
      "Videos w2 = Videos w1" "mirrors r1 r2 []" "sameNewComments w w1 w1 w2"
      by blast
    with True ne show ?thesis
      by (simp add: scrapeVideos_def)
  qed
  then obtain r2 w2 where
    r: "scrapeVideos yt auth w1 = Some (r2, w2)" "Videos w2 = Videos w1"
      "mirrors r1 r2 []" "sameNewComments w w1 w1 w2"
    by blast
  from r(4) obtain c1 c2 where
    "VideoComments w1 = VideoComments w @ c1" "VideoComments w2 = VideoComments w1 @ c2"
    "map commentContent c2 = map commentContent c1"
    by (auto simp: sameNewComments_def)
  with r(1,2,3) show ?thesis
    by (auto simp: mirrors_def)
qed

lemma second_run_settled:
  assumes run: "scrapeVideos yt auth w = Some (Inr vs, w1)"
  shows "\<exists>w2. scrapeVideos yt auth w1 = Some (Inr [], w2) \<and> Videos w2 = Videos w1"
proof -
  let ?mine = "\<lambda>c. YouTubeChannelType.userId c = the auth"
  let ?chans = "filter ?mine (YouTubeChannels w)"
  let ?chans1 = "filter ?mine (YouTubeChannels w1)"
  from run have t: "truthy auth" "?chans \<noteq> []"
    and loop: "channels_loop yt (the auth) ?chans [] w = Some (Inr vs, w1)"
    by (auto simp: scrapeVideos_def split: if_splits)
  have "\<forall>r \<in> set (YouTubeChannels w1). ?mine r \<longrightarrow> settled yt (the auth) w1 r"
    by (rule channels_loop_settles [OF loop]) simp_all
  then have "\<forall>c \<in> set ?chans1. settled yt (the auth) w1 c"
    by simp
  from channels_loop_settled [OF this, of "[]"] obtain w2 where
    w2: "channels_loop yt (the auth) ?chans1 [] w1 = Some (Inr [], w2)" "Videos w2 = Videos w1"
    by blast
  from channels_loop_users [OF loop]
  have eq: "YouTubeChannelType.userId ` set (YouTubeChannels w1) =
        YouTubeChannelType.userId ` set (YouTubeChannels w)"
    by (simp only: set_map [symmetric])
  from t(2) obtain x where "x \<in> set (YouTubeChannels w)" "?mine x"
    by (auto simp: filter_empty_conv)
  then have "the auth \<in> YouTubeChannelType.userId ` set (YouTubeChannels w)"
    by force
  with eq have "the auth \<in> YouTubeChannelType.userId ` set (YouTubeChannels w1)"
    by simp
  then obtain y where "y \<in> set (YouTubeChannels w1)" "?mine y"
    by auto
  then have "?chans1 \<noteq> []"
    by (auto simp: filter_empty_conv)
  with t(1) w2 show ?thesis
    by (simp add: scrapeVideos_def)
qed

text \<open>
  C2: when a run of \<open>scrapeVideos\<close> has returned, a second run against the
  same upstream responses returns as well, with no new video, and leaves the
  video table as the first run left it; this holds from every store. When the
  channel rows have distinct row identifiers (the key of the table), the
  comment rows the second run appends are those the first run appended, under
  new row identifiers, so every comment of the first run is stored a second
  time; and a first run that threw is answered by the same error, again with
  no new video row.
\<close>

theorem second_run_adds_no_video:
  "(scrapeVideos yt auth w = Some (Inr vs, w1) \<longrightarrow>
      (\<exists>w2. scrapeVideos yt auth w1 = Some (Inr [], w2) \<and> Videos w2 = Videos w1)) \<and>
   (scrapeVideos yt auth w = Some (r1, w1) \<and>
    distinct (map YouTubeChannelType.id' (YouTubeChannels w)) \<longrightarrow>
      (\<exists>r2 w2. scrapeVideos yt auth w1 = Some (r2, w2) \<and>
         Videos w2 = Videos w1 \<and>
         (case r1 of Inl e \<Rightarrow> r2 = Inl e | Inr vs \<Rightarrow> r2 = Inr []) \<and>
         (\<exists>c1 c2. VideoComments w1 = VideoComments w @ c1 \<and>
                  VideoComments w2 = VideoComments w1 @ c2 \<and>
                  map commentContent c2 = map commentContent c1)))"
proof (intro conjI impI)
  assume "scrapeVideos yt auth w = Some (Inr vs, w1)"
  then show "\<exists>w2. scrapeVideos yt auth w1 = Some (Inr [], w2) \<and> Videos w2 = Videos w1"
    by (rule second_run_settled)
next
  assume a: "scrapeVideos yt auth w = Some (r1, w1) \<and>
    distinct (map YouTubeChannelType.id' (YouTubeChannels w))"
  from second_run_mirrors [OF conjunct1 [OF a] conjunct2 [OF a]]
  show "\<exists>r2 w2. scrapeVideos yt auth w1 = Some (r2, w2) \<and>
         Videos w2 = Videos w1 \<and>
         (case r1 of Inl e \<Rightarrow> r2 = Inl e | Inr vs \<Rightarrow> r2 = Inr []) \<and>
         (\<exists>c1 c2. VideoComments w1 = VideoComments w @ c1 \<and>
                  VideoComments w2 = VideoComments w1 @ c2 \<and>
                  map commentContent c2 = map commentContent c1)" .
qed

theorem second_run_adds_no_video_witness:
  "scrapeVideos sampleYoutube (Some ''alice'') aliceWorld = Some (fst aliceRun, snd aliceRun) \<and>
   distinct (map YouTubeChannelType.id' (YouTubeChannels aliceWorld)) \<and>
   map Video.videoId (Videos (snd aliceRun)) = [''v1'', ''v2''] \<and>
   length (VideoComments (snd aliceRun)) = 1 \<and>
   scrapeVideos sampleYoutube (Some ''alice'') (snd aliceRun) =
     Some (fst secondRun, snd secondRun) \<and>
   Videos (snd secondRun) = Videos (snd aliceRun) \<and>
   fst secondRun = Inr [] \<and>
   length (VideoComments (snd secondRun)) = 2 \<and>
   length (remdups (map commentContent (VideoComments (snd secondRun)))) = 1"
proof -
  have "scrapeVideos sampleYoutube (Some ''alice'') aliceWorld \<noteq> None"
    by code_simp
  then have a: "scrapeVideos sampleYoutube (Some ''alice'') aliceWorld =
      Some (fst aliceRun, snd aliceRun)"
    by (simp add: aliceRun_def)
  have d: "distinct (map YouTubeChannelType.id' (YouTubeChannels aliceWorld))"
    by (simp add: aliceWorld_def emptyWorld_def)
  have "\<not> isl (fst aliceRun)"
    by code_simp
  then obtain vs where vs: "fst aliceRun = Inr vs"
    by (cases "fst aliceRun") simp_all
  from a d vs
    second_run_adds_no_video
      [where yt = sampleYoutube and auth = "Some ''alice''" and w = aliceWorld
         and ?r1.0 = "fst aliceRun" and ?w1.0 = "snd aliceRun" and vs = vs]
  obtain r2 w2 where
    r: "scrapeVideos sampleYoutube (Some ''alice'') (snd aliceRun) = Some (r2, w2)"
      "Videos w2 = Videos (snd aliceRun)"
      "case fst aliceRun of Inl e \<Rightarrow> r2 = Inl e | Inr vs \<Rightarrow> r2 = Inr []"
    by blast
  from r(1) have s: "fst secondRun = r2" "snd secondRun = w2"
    by (simp_all add: secondRun_def)
  have v: "map Video.videoId (Videos (snd aliceRun)) = [''v1'', ''v2'']"
    by code_simp
  have c1: "length (VideoComments (snd aliceRun)) = 1"
    by code_simp
  have c2: "length (VideoComments (snd secondRun)) = 2"
    by code_simp
  have c3: "length (remdups (map commentContent (VideoComments (snd secondRun)))) = 1"
    by code_simp
  from r(1) have s3: "scrapeVideos sampleYoutube (Some ''alice'') (snd aliceRun) =
      Some (fst secondRun, snd secondRun)"
    by (simp only: s)
  from r(2) have s1: "Videos (snd secondRun) = Videos (snd aliceRun)"
    by (simp only: s)
  from r(3) vs have s2: "fst secondRun = Inr []"
    by (simp add: s)
  from a d v c1 s3 s1 s2 c2 c3 show ?thesis
    by (intro conjI)
qed

section \<open>The channel searches of a run\<close>

lemma scrapeVideos_searches:
  assumes run: "scrapeVideos yt auth w = Some (res, w')"
  shows "\<exists>ns. channelSearches (requests w') = channelSearches (requests w) @ ns \<and>
           prefix ns (unsetNames (filter (\<lambda>c. YouTubeChannelType.userId c = the auth)
                                    (YouTubeChannels w))) \<and>
           (\<forall>vs. res = Inr vs \<longrightarrow>
              ns = unsetNames (filter (\<lambda>c. YouTubeChannelType.userId c = the auth)
                                 (YouTubeChannels w)))"
proof (cases "truthy auth \<and>
    filter (\<lambda>c. YouTubeChannelType.userId c = the auth) (YouTubeChannels w) \<noteq> []")
  case True
  with run have "channels_loop yt (the auth)
      (filter (\<lambda>c. YouTubeChannelType.userId c = the auth) (YouTubeChannels w)) [] w =
      Some (res, w')"
    by (simp add: scrapeVideos_def)
  from channels_loop_searches [OF this] show ?thesis .
next
  case False
  with run have "w' = w" "\<exists>e. res = Inl e"
    by (auto simp: scrapeVideos_def split: if_splits)
  then show ?thesis by auto
qed

lemma first_run_settles:
  assumes run: "scrapeVideos yt auth w = Some (Inr vs, w1)"
  shows "\<forall>c \<in> set (filter (\<lambda>c. YouTubeChannelType.userId c = the auth) (YouTubeChannels w1)).
           settled yt (the auth) w1 c"
proof -
  let ?mine = "\<lambda>c. YouTubeChannelType.userId c = the auth"
  from run have loop: "channels_loop yt (the auth) (filter ?mine (YouTubeChannels w)) [] w =
      Some (Inr vs, w1)"
    by (auto simp: scrapeVideos_def split: if_splits)
  have "\<forall>r \<in> set (YouTubeChannels w1). ?mine r \<longrightarrow> settled yt (the auth) w1 r"
    by (rule channels_loop_settles [OF loop]) simp_all
  then show ?thesis by simp
qed

lemma second_run_searches:
  assumes run: "scrapeVideos yt auth w = Some (Inr vs, w1)"
  shows "\<exists>w2 ns. scrapeVideos yt auth w1 = Some (Inr [], w2) \<and>
           channelSearches (requests w2) = channelSearches (requests w1) @ ns \<and>
           list_all (\<lambda>n. getChannelId yt n = None) ns"
proof -
  let ?chans1 = "filter (\<lambda>c. YouTubeChannelType.userId c = the auth) (YouTubeChannels w1)"
  from second_run_settled [OF run] obtain w2 where
    w2: "scrapeVideos yt auth w1 = Some (Inr [], w2)"
    by blast
  from scrapeVideos_searches [OF w2]
  have s: "channelSearches (requests w2) = channelSearches (requests w1) @ unsetNames ?chans1"
    by auto
  have "getChannelId yt (name c) = None"
    if "c \<in> set ?chans1" "\<not> truthy (YouTubeChannelType.channelId c)" for c
    using first_run_settles [OF run] that by (auto simp: settled_def)
  then have "list_all (\<lambda>n. getChannelId yt n = None) (unsetNames ?chans1)"
    by (auto simp: unsetNames_def list_all_iff)
  with w2 s show ?thesis by blast
qed

text \<open>
  C8, as the code has it. The channel searches of a run are searches for the
  channel records of the user whose identifier is unset (null or the empty
  string), one for each such record and in their order: all of them when the
  run returns, an initial segment of them when it throws. So a run sends no search for
  a record whose identifier is set, and sends none at all when every record of
  the user has one; two unset records with the same name are each searched
  for. An identifier the resolver finds is not empty and is stored at once on
  the rows with the record's row identifier and owner. After a run that
  returned, a second run returns too, and each of its channel searches is for
  a name for which the search finds no identifier.
\<close>

theorem resolver_only_for_unset_channels:
  "(scrapeVideos yt auth w = Some (res, w') \<longrightarrow>
      (\<exists>ns. channelSearches (requests w') = channelSearches (requests w) @ ns \<and>
            prefix ns (unsetNames (filter (\<lambda>c. YouTubeChannelType.userId c = the auth)
                                     (YouTubeChannels w))) \<and>
            (\<forall>vs. res = Inr vs \<longrightarrow>
               ns = unsetNames (filter (\<lambda>c. YouTubeChannelType.userId c = the auth)
                                  (YouTubeChannels w))))) \<and>
   (scrapeVideos yt auth w = Some (res, w') \<and>
    (\<forall>c \<in> set (YouTubeChannels w).
       YouTubeChannelType.userId c = the auth \<longrightarrow> truthy (YouTubeChannelType.channelId c)) \<longrightarrow>
      channelSearches (requests w') = channelSearches (requests w)) \<and>
   (\<not> truthy (YouTubeChannelType.channelId c) \<and> resolveChannel yt uid c w = (Some cid, w1) \<longrightarrow>
      cid \<noteq> [] \<and>
      (\<forall>r \<in> set (YouTubeChannels w1).
         YouTubeChannelType.id' r = YouTubeChannelType.id' c \<and> YouTubeChannelType.userId r = uid \<longrightarrow>
         YouTubeChannelType.channelId r = Some cid)) \<and>
   (scrapeVideos yt auth w = Some (Inr vs, w') \<longrightarrow>
      (\<exists>w2 ns. scrapeVideos yt auth w' = Some (Inr [], w2) \<and>
         channelSearches (requests w2) = channelSearches (requests w') @ ns \<and>
         list_all (\<lambda>n. getChannelId yt n = None) ns))"
proof (intro conjI impI)
  assume "scrapeVideos yt auth w = Some (res, w')"
  then show "\<exists>ns. channelSearches (requests w') = channelSearches (requests w) @ ns \<and>
            prefix ns (unsetNames (filter (\<lambda>c. YouTubeChannelType.userId c = the auth)
                                     (YouTubeChannels w))) \<and>
            (\<forall>vs. res = Inr vs \<longrightarrow>
               ns = unsetNames (filter (\<lambda>c. YouTubeChannelType.userId c = the auth)
                                  (YouTubeChannels w)))"
    by (rule scrapeVideos_searches)
next
  assume a: "scrapeVideos yt auth w = Some (res, w') \<and>
    (\<forall>c \<in> set (YouTubeChannels w).
       YouTubeChannelType.userId c = the auth \<longrightarrow> truthy (YouTubeChannelType.channelId c))"
  then have "unsetNames (filter (\<lambda>c. YouTubeChannelType.userId c = the auth)
                (YouTubeChannels w)) = []"
    by (auto simp: unsetNames_def filter_empty_conv)
  with scrapeVideos_searches [OF conjunct1 [OF a]]
  show "channelSearches (requests w') = channelSearches (requests w)"
    by auto
next
  assume a: "\<not> truthy (YouTubeChannelType.channelId c) \<and>
    resolveChannel yt uid c w = (Some cid, w1)"
  from resolveChannel_persists [OF conjunct1 [OF a] conjunct2 [OF a]]
  show "cid \<noteq> []" by simp
  from resolveChannel_persists [OF conjunct1 [OF a] conjunct2 [OF a]]
  show "\<forall>r \<in> set (YouTubeChannels w1).
       YouTubeChannelType.id' r = YouTubeChannelType.id' c \<and> YouTubeChannelType.userId r = uid \<longrightarrow>
       YouTubeChannelType.channelId r = Some cid" by simp
next
  assume "scrapeVideos yt auth w = Some (Inr vs, w')"
  then show "\<exists>w2 ns. scrapeVideos yt auth w' = Some (Inr [], w2) \<and>
         channelSearches (requests w2) = channelSearches (requests w') @ ns \<and>
         list_all (\<lambda>n. getChannelId yt n = None) ns"
    by (rule second_run_searches)
qed

theorem resolver_only_for_unset_channels_witness:
  "scrapeVideos sampleYoutube (Some ''alice'') aliceWorld = Some (fst aliceRun, snd aliceRun) \<and>
   unsetNames (filter (\<lambda>c. YouTubeChannelType.userId c = the (Some ''alice''))
                 (YouTubeChannels aliceWorld)) = [''Acme''] \<and>
   channelSearches (requests (snd aliceRun)) = [''Acme''] \<and>
   scrapeVideos sampleYoutube (Some ''alice'') resolvedWorld =
     Some (fst resolvedRun, snd resolvedRun) \<and>
   map (\<lambda>c. truthy (YouTubeChannelType.channelId c)) (YouTubeChannels resolvedWorld) = [True] \<and>
   channelSearches (requests (snd resolvedRun)) = [] \<and>
   \<not> truthy (YouTubeChannelType.channelId (acmeChannel None)) \<and>
   resolveChannel sampleYoutube ''alice'' (acmeChannel None) aliceWorld =
     (Some ''UC1'', snd (resolveChannel sampleYoutube ''alice'' (acmeChannel None) aliceWorld)) \<and>
   map YouTubeChannelType.channelId
     (YouTubeChannels (snd (resolveChannel sampleYoutube ''alice'' (acmeChannel None) aliceWorld))) =
     [Some ''UC1''] \<and>
   scrapeVideos sampleYoutube (Some ''alice'') nobodyWorld =
     Some (fst nobodyRun, snd nobodyRun) \<and>
   \<not> isl (fst nobodyRun) \<and>
   channelSearches (requests (snd nobodyRun)) = [''Acme'', ''Nobody''] \<and>
   fst nobodyRerun = Inr [] \<and>
   channelSearches (requests (snd nobodyRerun)) = [''Acme'', ''Nobody''] @ [''Nobody''] \<and>
   getChannelId sampleYoutube ''Nobody'' = None"
proof -
  have "scrapeVideos sampleYoutube (Some ''alice'') aliceWorld \<noteq> None"
    by code_simp
  then have a: "scrapeVideos sampleYoutube (Some ''alice'') aliceWorld =
      Some (fst aliceRun, snd aliceRun)"
    by (simp add: aliceRun_def)
  have "\<not> isl (fst aliceRun)"
    by code_simp
  then have ar: "\<exists>vs. fst aliceRun = Inr vs"
    by (cases "fst aliceRun") simp_all
  have au: "unsetNames (filter (\<lambda>c. YouTubeChannelType.userId c = the (Some ''alice''))
                 (YouTubeChannels aliceWorld)) = [''Acme'']"
    by (simp add: unsetNames_def aliceWorld_def emptyWorld_def acmeChannel_def)
  have a0: "requests aliceWorld = []"
    by (simp add: aliceWorld_def emptyWorld_def)
  from a ar au a0
    resolver_only_for_unset_channels
      [where yt = sampleYoutube and auth = "Some ''alice''" and w = aliceWorld
         and res = "fst aliceRun" and w' = "snd aliceRun"]
  have s1: "channelSearches (requests (snd aliceRun)) = [''Acme'']"
    by simp
  have "scrapeVideos sampleYoutube (Some ''alice'') resolvedWorld \<noteq> None"
    by code_simp
  then have r: "scrapeVideos sampleYoutube (Some ''alice'') resolvedWorld =
      Some (fst resolvedRun, snd resolvedRun)"
    by (simp add: resolvedRun_def)
  have rc: "YouTubeChannels resolvedWorld = [acmeChannel (Some ''UC1'')]"
    "requests resolvedWorld = []"
    by (simp_all add: resolvedWorld_def aliceWorld_def emptyWorld_def)
  have rt: "truthy (YouTubeChannelType.channelId (acmeChannel (Some ''UC1'')))"
    by (simp add: acmeChannel_def)
  from r rc rt
    resolver_only_for_unset_channels
      [where yt = sampleYoutube and auth = "Some ''alice''" and w = resolvedWorld
         and res = "fst resolvedRun" and w' = "snd resolvedRun"]
  have s2: "channelSearches (requests (snd resolvedRun)) = []"
    by simp
  have u: "\<not> truthy (YouTubeChannelType.channelId (acmeChannel None))"
    by (simp add: acmeChannel_def)
  have "fst (resolveChannel sampleYoutube ''alice'' (acmeChannel None) aliceWorld) = Some ''UC1''"
    by code_simp
  then have rs: "resolveChannel sampleYoutube ''alice'' (acmeChannel None) aliceWorld =
     (Some ''UC1'', snd (resolveChannel sampleYoutube ''alice'' (acmeChannel None) aliceWorld))"
    by (cases "resolveChannel sampleYoutube ''alice'' (acmeChannel None) aliceWorld") simp
  have p: "map YouTubeChannelType.channelId
     (YouTubeChannels (snd (resolveChannel sampleYoutube ''alice'' (acmeChannel None) aliceWorld))) =
     [Some ''UC1'']"
    by code_simp
  have "scrapeVideos sampleYoutube (Some ''alice'') nobodyWorld \<noteq> None"
    by code_simp
  then have n: "scrapeVideos sampleYoutube (Some ''alice'') nobodyWorld =
      Some (fst nobodyRun, snd nobodyRun)"
    by (simp add: nobodyRun_def)
  have ni: "\<not> isl (fst nobodyRun)"
    by code_simp
  then obtain vs where vs: "fst nobodyRun = Inr vs"
    by (cases "fst nobodyRun") simp_all
  from resolver_only_for_unset_channels
      [where yt = sampleYoutube and auth = "Some ''alice''" and w = nobodyWorld
         and vs = vs and w' = "snd nobodyRun",
       THEN conjunct2, THEN conjunct2, THEN conjunct2]
  have "scrapeVideos sampleYoutube (Some ''alice'') nobodyWorld = Some (Inr vs, snd nobodyRun) \<longrightarrow>
    (\<exists>w2 ns. scrapeVideos sampleYoutube (Some ''alice'') (snd nobodyRun) = Some (Inr [], w2) \<and>
       channelSearches (requests w2) = channelSearches (requests (snd nobodyRun)) @ ns \<and>
       list_all (\<lambda>n. getChannelId sampleYoutube n = None) ns)" .
  with n vs
  obtain w2 where "scrapeVideos sampleYoutube (Some ''alice'') (snd nobodyRun) = Some (Inr [], w2)"
    by auto
  then have n2: "fst nobodyRerun = Inr []"
    by (simp add: nobodyRerun_def)
  have s3: "channelSearches (requests (snd nobodyRun)) = [''Acme'', ''Nobody'']"
    by code_simp
  have s4: "channelSearches (requests (snd nobodyRerun)) = [''Acme'', ''Nobody''] @ [''Nobody'']"
    by code_simp
  have g: "getChannelId sampleYoutube ''Nobody'' = None"
    by code_simp
  from a au s1 r rc rt s2 u rs p n ni s3 n2 s4 g show ?thesis by simp
qed

text \<open>
  C8 as stated fails. Two records of one user with the same name and no
  identifier are each searched for, so one run searches for the name twice; a
  record whose stored identifier is the empty string (not null) is searched
  for; and a name the search does not find is searched for again by the next
  run.
\<close>

theorem resolver_once_per_name_counterexample:
  "map name (YouTubeChannels twinWorld) = [''Acme'', ''Acme''] \<and>
   scrapeVideos sampleYoutube (Some ''alice'') twinWorld \<noteq> None \<and>
   channelSearches (requests (snd twinRun)) = [''Acme'', ''Acme''] \<and>
   map YouTubeChannelType.channelId (YouTubeChannels blankWorld) = [Some []] \<and>
   scrapeVideos sampleYoutube (Some ''alice'') blankWorld \<noteq> None \<and>
   channelSearches (requests (snd blankRun)) = [''Acme''] \<and>
   scrapeVideos sampleYoutube (Some ''alice'') nobodyWorld \<noteq> None \<and>
   scrapeVideos sampleYoutube (Some ''alice'') (snd nobodyRun) \<noteq> None \<and>
   channelSearches (requests (snd nobodyRerun)) = [''Acme'', ''Nobody'', ''Nobody'']"
  by code_simp


end
